theory Spec2Isabelle
  imports Main "HOL-Library.Multiset" "HOL-Library.Char_ord" "HOL-Library.List_Lexorder"
begin

section \<open>Python values and text primitives\<close>

text \<open>
  The scraper is a Python program. A character of the model is a code point below 256
  (the type \<open>char\<close>), and a text is a \<open>string\<close> of them; text with code points from
  256 on is outside the model. On these characters the classes are those of Python's
  \<open>str\<close>:
  \<^item> \<open>str.isdigit\<close> holds for \<open>0..9\<close> and for the superscripts \<open>U+00B2\<close>, \<open>U+00B3\<close>
    and \<open>U+00B9\<close>;
  \<^item> the whitespace that \<open>str.strip()\<close> removes is tab, line feed, vertical tab, form
    feed, carriage return, the separators \<open>0x1C..0x1F\<close>, the space, the next-line
    control \<open>U+0085\<close> and the no-break space \<open>U+00A0\<close>;
  \<^item> \<open>str.lower\<close> maps \<open>A..Z\<close> and the upper case letters \<open>U+00C0..U+00DE\<close>, but for
    the multiplication sign \<open>U+00D7\<close>, to the character 32 places on, and leaves every
    other character as it is.
\<close>

definition py_isdigit :: "char \<Rightarrow> bool" where
  "py_isdigit c =
     (let n = (of_char c :: nat) in (48 \<le> n \<and> n \<le> 57) \<or> n = 178 \<or> n = 179 \<or> n = 185)"

definition py_isspace :: "char \<Rightarrow> bool" where
  "py_isspace c =
     (let n = (of_char c :: nat) in
        (9 \<le> n \<and> n \<le> 13) \<or> (28 \<le> n \<and> n \<le> 32) \<or> n = 133 \<or> n = 160)"

definition py_lower_char :: "char \<Rightarrow> char" where
  "py_lower_char c =
     (let n = (of_char c :: nat) in
        if (65 \<le> n \<and> n \<le> 90) \<or> (192 \<le> n \<and> n \<le> 222 \<and> n \<noteq> 215)
        then char_of (n + 32) else c)"

definition py_lower :: "string \<Rightarrow> string" where
  "py_lower s = map py_lower_char s"

definition py_strip :: "string \<Rightarrow> string" where
  "py_strip s = rev (dropWhile py_isspace (rev (dropWhile py_isspace s)))"

definition py_startswith :: "string \<Rightarrow> string \<Rightarrow> bool" where
  "py_startswith s p = (take (length p) s = p)"

text \<open>\<open>sub in s\<close>: \<open>sub\<close> occurs in \<open>s\<close> as a contiguous substring.\<close>

fun py_in :: "string \<Rightarrow> string \<Rightarrow> bool" where
  "py_in sub [] = (sub = [])"
| "py_in sub (c # cs) = (py_startswith (c # cs) sub \<or> py_in sub cs)"

text \<open>
  \<open>s.replace(old, new)\<close>: the occurrences of \<open>old\<close> are replaced from left to right
  without overlap. With an empty \<open>old\<close> Python puts \<open>new\<close> before every character and
  at the end.
\<close>

function py_replace_ne :: "string \<Rightarrow> string \<Rightarrow> string \<Rightarrow> string" where
  "py_replace_ne old new s =
     (if s = [] then []
      else if old \<noteq> [] \<and> py_startswith s old
        then new @ py_replace_ne old new (drop (length old) s)
      else hd s # py_replace_ne old new (tl s))"
  by pat_completeness auto
termination
  by (relation "measure (\<lambda>(old, new, s). length s)") (auto simp: py_startswith_def)

definition py_replace :: "string \<Rightarrow> string \<Rightarrow> string \<Rightarrow> string" where
  "py_replace old new s =
     (if old = [] then new @ concat (map (\<lambda>c. c # new) s) else py_replace_ne old new s)"

text \<open>\<open>s.count(sub)\<close>: the number of non-overlapping occurrences, scanning from the left.\<close>

function py_count_ne :: "string \<Rightarrow> string \<Rightarrow> nat" where
  "py_count_ne sub s =
     (if s = [] then 0
      else if sub \<noteq> [] \<and> py_startswith s sub
        then Suc (py_count_ne sub (drop (length sub) s))
      else py_count_ne sub (tl s))"
  by pat_completeness auto
termination
  by (relation "measure (\<lambda>(sub, s). length s)") (auto simp: py_startswith_def)

definition py_count :: "string \<Rightarrow> string \<Rightarrow> nat" where
  "py_count s sub = (if sub = [] then Suc (length s) else py_count_ne sub s)"

declare py_replace_ne.simps [simp del] py_count_ne.simps [simp del]

text \<open>\<open>s.split(c)\<close> for a one-character separator: never an empty list.\<close>

fun py_split :: "char \<Rightarrow> string \<Rightarrow> string list" where
  "py_split c [] = [[]]"
| "py_split c (x # xs) =
     (if x = c then [] # py_split c xs
      else (case py_split c xs of w # ws \<Rightarrow> (x # w) # ws | [] \<Rightarrow> [[x]]))"

text \<open>Exceptions, as values. Every one of them but \<open>KeyboardInterrupt\<close> is an \<open>Exception\<close>;
  the Selenium ones are the subclasses of \<open>WebDriverException\<close>.\<close>

datatype exn =
    TimeoutException
  | NoSuchElementException
  | NoSuchWindowException
  | WebDriverException
  | AttributeError
  | KeyError
  | IndexError
  | TypeError
  | OSError
  | KeyboardInterrupt

fun is_Exception :: "exn \<Rightarrow> bool" where
  "is_Exception KeyboardInterrupt = False"
| "is_Exception _ = True"

fun is_WebDriverException :: "exn \<Rightarrow> bool" where
  "is_WebDriverException TimeoutException = True"
| "is_WebDriverException NoSuchElementException = True"
| "is_WebDriverException NoSuchWindowException = True"
| "is_WebDriverException WebDriverException = True"
| "is_WebDriverException _ = False"

text \<open>\<open>xs[i]\<close> for a non-negative index: out of range raises \<open>IndexError\<close>.\<close>

definition py_index :: "'a list \<Rightarrow> nat \<Rightarrow> exn + 'a" where
  "py_index xs i = (if i < length xs then Inr (xs ! i) else Inl IndexError)"

section \<open>Field validators (scraper.py, lines 58-87)\<close>

text \<open>\<open>validate_phone(phone)\<close>, lines 69-78.\<close>

definition validate_phone :: "string \<Rightarrow> string" where
  "validate_phone phone =
     (if phone = [] then []
      else let digits = filter py_isdigit phone in
        if length digits = 10 then digits
        else if length digits \<in> {11, 12} \<and> (py_startswith digits ''91'' \<or> py_startswith digits ''0'')
          then drop (length digits - 10) digits
        else phone)"

text \<open>\<open>validate_email(email)\<close>, lines 80-87. \<open>email.split('@')[1]\<close> is only evaluated when
  \<open>'@' in email\<close>, so it never raises; the model keeps the index check all the same and
  answers the empty string on every path that does not accept.\<close>

definition validate_email :: "string \<Rightarrow> string" where
  "validate_email email =
     (if email = [] then []
      else if py_in ''@'' email \<and>
              (case py_index (py_split (CHR ''@'') email) 1 of
                 Inr part \<Rightarrow> py_in ''.'' part
               | Inl _ \<Rightarrow> False)
        then py_lower (py_strip email)
      else [])"

text \<open>
  \<open>sanitize_data(data)\<close>, lines 58-67. The dictionary keeps its keys and their order;
  every \<open>str\<close> value is stripped, its line feeds and tabs become spaces, and the loop
  of line 65 replaces double spaces until none is left. Other values stay as they are.
  The loop ends because each round shortens the text.
\<close>

datatype pyval = Str string | IntV int | NoneV

type_synonym dict = "(string \<times> pyval) list"

lemma startswith_length: "py_startswith s p \<Longrightarrow> length p \<le> length s"
proof -
  assume "py_startswith s p"
  then have "length (take (length p) s) = length p" by (simp add: py_startswith_def)
  then show ?thesis by simp
qed

lemma py_replace_ne_length_le:
  "length new \<le> length old \<Longrightarrow> length (py_replace_ne old new s) \<le> length s"
proof (induction old new s rule: py_replace_ne.induct)
  case (1 old new s)
  show ?case
  proof (cases "s = []")
    case True
    then show ?thesis by (simp add: py_replace_ne.simps)
  next
    case ne: False
    show ?thesis
    proof (cases "old \<noteq> [] \<and> py_startswith s old")
      case True
      then have "length old \<le> length s"
        by (simp add: startswith_length)
      with 1 ne True show ?thesis
        by (subst py_replace_ne.simps) auto
    next
      case False
      with 1 ne show ?thesis
        by (subst py_replace_ne.simps) (cases s; auto)
    qed
  qed
qed

lemma py_replace_ne_length_less:
  "py_in old s \<Longrightarrow> old \<noteq> [] \<Longrightarrow> length new < length old \<Longrightarrow>
   length (py_replace_ne old new s) < length s"
proof (induction old new s rule: py_replace_ne.induct)
  case (1 old new s)
  from "1.prems" have ne: "s \<noteq> []" by (cases s) auto
  show ?case
  proof (cases "py_startswith s old")
    case True
    then have "length old \<le> length s"
      by (simp add: startswith_length)
    moreover have "length (py_replace_ne old new (drop (length old) s)) \<le> length (drop (length old) s)"
      using "1.prems" py_replace_ne_length_le[of new old "drop (length old) s"] by simp
    ultimately show ?thesis
      using ne True "1.prems" by (subst py_replace_ne.simps) auto
  next
    case False
    with "1.prems" ne have "py_in old (tl s)" by (cases s) auto
    with 1 ne False show ?thesis
      by (subst py_replace_ne.simps) (cases s; auto)
  qed
qed

function collapse_spaces :: "string \<Rightarrow> string" where
  "collapse_spaces s =
     (if py_in ''  '' s then collapse_spaces (py_replace ''  '' '' '' s) else s)"
  by pat_completeness auto
termination
  by (relation "measure length") (auto simp: py_replace_def py_replace_ne_length_less)

declare collapse_spaces.simps [simp del]

definition sanitize_str :: "string \<Rightarrow> string" where
  "sanitize_str value =
     collapse_spaces (py_replace [CHR 0x09] '' '' (py_replace [CHR 0x0A] '' '' (py_strip value)))"

fun sanitize_value :: "pyval \<Rightarrow> pyval" where
  "sanitize_value (Str s) = Str (sanitize_str s)"
| "sanitize_value v = v"

definition sanitize_data :: "dict \<Rightarrow> dict" where
  "sanitize_data data = map (\<lambda>(key, value). (key, sanitize_value value)) data"

text \<open>A text is stripped when \<open>strip()\<close> has nothing to remove from it.\<close>

definition stripped :: "string \<Rightarrow> bool" where
  "stripped s = (s = [] \<or> (\<not> py_isspace (hd s) \<and> \<not> py_isspace (last s)))"

text \<open>The two readings of "the substring after @" for an address with several \<open>@\<close>:
  everything behind the first one, and the part up to the next one, which is what
  \<open>split('@')[1]\<close> is.\<close>

definition text_after_at :: "string \<Rightarrow> string" where
  "text_after_at email = tl (dropWhile (\<lambda>c. c \<noteq> CHR ''@'') email)"

definition segment_after_at :: "string \<Rightarrow> string" where
  "segment_after_at email = takeWhile (\<lambda>c. c \<noteq> CHR ''@'') (text_after_at email)"

section \<open>Lead records and the relevancy score (scraper.py, lines 630-666)\<close>

text \<open>
  A lead is the Python dictionary \<open>seller_info\<close>: keys in insertion order, values that
  are \<open>str\<close>, \<open>int\<close> (the score) or \<open>None\<close> (an \<open>href\<close> attribute that is not there).
  \<open>d.get(k)\<close> answers \<open>None\<close> for a missing key, \<open>d[k]\<close> raises \<open>KeyError\<close>, and
  \<open>d[k] = v\<close> replaces the value in place or appends the key.
\<close>

definition dict_get :: "dict \<Rightarrow> string \<Rightarrow> pyval option" where
  "dict_get d k = map_of d k"

definition dict_item :: "dict \<Rightarrow> string \<Rightarrow> exn + pyval" where
  "dict_item d k = (case map_of d k of None \<Rightarrow> Inl KeyError | Some v \<Rightarrow> Inr v)"

fun dict_set :: "dict \<Rightarrow> string \<Rightarrow> pyval \<Rightarrow> dict" where
  "dict_set [] k v = [(k, v)]"
| "dict_set ((k', v') # d) k v = (if k' = k then (k, v) # d else (k', v') # dict_set d k v)"

text \<open>Truth value of a Python value, and of \<open>d.get(k)\<close>.\<close>

fun truthy :: "pyval \<Rightarrow> bool" where
  "truthy (Str s) = (s \<noteq> [])"
| "truthy (IntV n) = (n \<noteq> 0)"
| "truthy NoneV = False"

definition get_truthy :: "dict \<Rightarrow> string \<Rightarrow> bool" where
  "get_truthy d k = (case dict_get d k of None \<Rightarrow> False | Some v \<Rightarrow> truthy v)"

text \<open>\<open>v.lower()\<close>: only a \<open>str\<close> has the method.\<close>

fun str_lower :: "pyval \<Rightarrow> exn + string" where
  "str_lower (Str s) = Inr (py_lower s)"
| "str_lower _ = Inl AttributeError"

text \<open>Sequencing of steps that may raise.\<close>

definition and_then :: "exn + 'a \<Rightarrow> ('a \<Rightarrow> exn + 'b) \<Rightarrow> exn + 'b" where
  "and_then r f = (case r of Inl e \<Rightarrow> Inl e | Inr v \<Rightarrow> f v)"

text \<open>
  \<open>int(ratio * 0.6)\<close> and \<open>int(ratio * 0.3)\<close>: \<open>int\<close> cuts the product off towards zero.
  The ratio is an integer; the model computes the product exactly, in tenths
  (\<open>int_of_tenths ratio 6\<close> is \<open>int(ratio * 0.6)\<close>).
\<close>

definition int_of_tenths :: "int \<Rightarrow> int \<Rightarrow> int" where
  "int_of_tenths ratio k = (let p = ratio * k in if 0 \<le> p then p div 10 else - ((- p) div 10))"

text \<open>
  The three parts of the score. \<open>fuzz.partial_ratio\<close> is a library function: the model
  takes it as the parameter \<open>partial_ratio\<close>. Lines 640-647, the description term:
\<close>

definition description_points :: "(string \<Rightarrow> string \<Rightarrow> int) \<Rightarrow> string \<Rightarrow> string \<Rightarrow> int" where
  "description_points partial_ratio keyword_lower product_desc_lower =
     (if product_desc_lower \<noteq> [] then
        if py_in keyword_lower product_desc_lower
        then 60 + min 10 (int (py_count product_desc_lower keyword_lower) * 2)
        else int_of_tenths (partial_ratio keyword_lower product_desc_lower) 6
      else 0)"

text \<open>Lines 649-655, the company name term:\<close>

definition company_points :: "(string \<Rightarrow> string \<Rightarrow> int) \<Rightarrow> string \<Rightarrow> string \<Rightarrow> int" where
  "company_points partial_ratio keyword_lower company_name_lower =
     (if company_name_lower \<noteq> [] then
        if py_in keyword_lower company_name_lower then 30
        else int_of_tenths (partial_ratio keyword_lower company_name_lower) 3
      else 0)"

text \<open>Lines 657-664, the flat bonuses:\<close>

definition bonus_points :: "pyval \<Rightarrow> pyval \<Rightarrow> pyval \<Rightarrow> pyval \<Rightarrow> int" where
  "bonus_points phone email address catalog =
     (if truthy phone then 3 else 0) + (if truthy email then 2 else 0) +
     (if truthy address then 5 else 0) + (if truthy catalog then 5 else 0)"

text \<open>\<open>_calculate_relevancy_score(self, seller_info, keyword)\<close>.\<close>

definition calculate_relevancy_score ::
  "(string \<Rightarrow> string \<Rightarrow> int) \<Rightarrow> dict \<Rightarrow> string \<Rightarrow> exn + int" where
  "calculate_relevancy_score partial_ratio seller_info keyword =
     (let keyword_lower = py_lower keyword in
      and_then (dict_item seller_info ''Product Title/Description'') (\<lambda>desc.
      and_then (str_lower desc) (\<lambda>product_desc_lower.
      and_then (dict_item seller_info ''Company Name'') (\<lambda>name.
      and_then (str_lower name) (\<lambda>company_name_lower.
      and_then (dict_item seller_info ''Phone Number'') (\<lambda>phone.
      and_then (dict_item seller_info ''Email'') (\<lambda>email.
      and_then (dict_item seller_info ''Address'') (\<lambda>address.
      and_then (dict_item seller_info ''Product Catalog URL'') (\<lambda>catalog.
        Inr (min 100
          (description_points partial_ratio keyword_lower product_desc_lower
           + company_points partial_ratio keyword_lower company_name_lower
           + bonus_points phone email address catalog)))))))))))"

text \<open>A lead record as the scorer needs it: the description and the company name are
  \<open>str\<close>, and the four contact keys are there.\<close>

definition is_str_field :: "dict \<Rightarrow> string \<Rightarrow> bool" where
  "is_str_field d k = (case dict_get d k of Some (Str s) \<Rightarrow> True | _ \<Rightarrow> False)"

definition has_key :: "dict \<Rightarrow> string \<Rightarrow> bool" where
  "has_key d k = (dict_get d k \<noteq> None)"

definition lead_record :: "dict \<Rightarrow> bool" where
  "lead_record d =
     (is_str_field d ''Product Title/Description'' \<and> is_str_field d ''Company Name'' \<and>
      has_key d ''Phone Number'' \<and> has_key d ''Email'' \<and> has_key d ''Address'' \<and>
      has_key d ''Product Catalog URL'')"

text \<open>A field that is absent in the sense of the scorer: the key is there and its value
  is the empty string or \<open>None\<close>.\<close>

definition absent_field :: "dict \<Rightarrow> string \<Rightarrow> bool" where
  "absent_field d k = (case dict_get d k of Some v \<Rightarrow> \<not> truthy v | None \<Rightarrow> False)"

definition empty_lead :: "dict \<Rightarrow> bool" where
  "empty_lead d =
     (dict_get d ''Product Title/Description'' = Some (Str []) \<and>
      dict_get d ''Company Name'' = Some (Str []) \<and>
      absent_field d ''Phone Number'' \<and> absent_field d ''Email'' \<and>
      absent_field d ''Address'' \<and> absent_field d ''Product Catalog URL'')"

text \<open>The lead of the end-to-end scenario, after enrichment, and two stand-ins for the
  fuzzy primitive to evaluate the scorer with.\<close>

definition acme_lead :: dict where
  "acme_lead =
     [(''Company Name'', Str ''Acme Sports''),
      (''Company Profile URL'', Str ''https://www.indiamart.com/acme-sports/''),
      (''Product Title/Description'', Str ''Leather Cricket Ball, size 5''),
      (''Product Catalog URL'', Str []),
      (''Price'', Str ''Not Listed''),
      (''Address'', Str []),
      (''Phone Number'', Str ''9876543210''),
      (''Email'', Str ''sales@acme.com''),
      (''Relevancy Score (%)'', IntV 0)]"

definition blank_lead :: dict where
  "blank_lead =
     [(''Company Name'', Str []), (''Company Profile URL'', NoneV),
      (''Product Title/Description'', Str []), (''Product Catalog URL'', Str []),
      (''Price'', Str ''Not Listed''), (''Address'', Str []), (''Phone Number'', Str []),
      (''Email'', Str []), (''Relevancy Score (%)'', IntV 0)]"

definition ratio_const :: "int \<Rightarrow> string \<Rightarrow> string \<Rightarrow> int" where
  "ratio_const r a b = r"

section \<open>The retry decorator (scraper.py, lines 40-56)\<close>

text \<open>
  A Python function object: its attributes and what a call does to the state of the
  program. A function made by a \<open>def\<close> statement has the attributes \<open>__name__\<close>,
  \<open>__qualname__\<close>, \<open>__module__\<close> and \<open>__doc__\<close>; reading an attribute it does not
  have raises \<open>AttributeError\<close>.
\<close>

record ('s, 'a) py_function =
  fn_attrs :: "(string \<times> string) list"
  fn_body :: "'s \<Rightarrow> (exn + 'a) \<times> 's"

definition py_def :: "string \<Rightarrow> string \<Rightarrow> ('s \<Rightarrow> (exn + 'a) \<times> 's) \<Rightarrow> ('s, 'a) py_function" where
  "py_def name doc body =
     \<lparr>fn_attrs = [(''__name__'', name), (''__qualname__'', name),
                  (''__module__'', ''__main__''), (''__doc__'', doc)],
      fn_body = body\<rparr>"

definition getattr :: "('s, 'a) py_function \<Rightarrow> string \<Rightarrow> exn + string" where
  "getattr func name = (case map_of (fn_attrs func) name of None \<Rightarrow> Inl AttributeError | Some v \<Rightarrow> Inr v)"

text \<open>
  The loop of \<open>wrapper\<close>, lines 44-54. The result is what \<open>wrapper\<close> returns or raises
  (\<open>None\<close> when the loop ends without a \<open>return\<close>), the state left behind, and the
  number of invocations of \<open>func\<close> so far. An exception that is not an \<open>Exception\<close>
  passes through the \<open>except\<close> clause. In the handler, the message of line 50 is built
  before anything is logged: it reads \<open>func._name_\<close>, and an exception raised there
  leaves the handler and the loop. \<open>logging\<close> and \<open>time.sleep\<close> do not change the
  state of the model.
\<close>

function wrapper_loop ::
  "int \<Rightarrow> ('s, 'a) py_function \<Rightarrow> int \<Rightarrow> 's \<Rightarrow> nat \<Rightarrow> (exn + 'a option) \<times> 's \<times> nat" where
  "wrapper_loop max_attempts func attempts s calls =
     (if attempts < max_attempts then
        (case fn_body func s of
           (Inr v, s') \<Rightarrow> (Inr (Some v), s', Suc calls)
         | (Inl e, s') \<Rightarrow>
             if \<not> is_Exception e then (Inl e, s', Suc calls)
             else (case getattr func ''_name_'' of
                     Inl a \<Rightarrow> (Inl a, s', Suc calls)
                   | Inr name \<Rightarrow>
                       if attempts + 1 = max_attempts then (Inl e, s', Suc calls)
                       else wrapper_loop max_attempts func (attempts + 1) s' (Suc calls)))
      else (Inr None, s, calls))"
  by pat_completeness auto
termination
  by (relation "measure (\<lambda>(max_attempts, func, attempts, s, calls). nat (max_attempts - attempts))")
     auto

declare wrapper_loop.simps [simp del]

text \<open>\<open>retry(max_attempts, delay)(func)\<close>: the decorated function.\<close>

definition retry ::
  "int \<Rightarrow> int \<Rightarrow> ('s, 'a) py_function \<Rightarrow> 's \<Rightarrow> (exn + 'a option) \<times> 's \<times> nat" where
  "retry max_attempts delay func s = wrapper_loop max_attempts func 0 s 0"

text \<open>Two operations to run the decorator on. The state counts the calls made so far:
  \<open>flaky_operation\<close> times out on its first call and returns the call number afterwards,
  \<open>failing_operation\<close> times out on every call.\<close>

definition flaky_operation :: "nat \<Rightarrow> (exn + nat) \<times> nat" where
  "flaky_operation n = (if n = 0 then Inl TimeoutException else Inr (Suc n), Suc n)"

definition failing_operation :: "nat \<Rightarrow> (exn + nat) \<times> nat" where
  "failing_operation n = (Inl TimeoutException, Suc n)"

section \<open>Export (scraper.py, lines 786-824)\<close>

text \<open>
  \<open>sorted(self.leads, key=lambda x: x.get("Relevancy Score (%)", 0), reverse=True)\<close>.
  Python's sort is stable, and with \<open>reverse=True\<close> it still keeps records of equal key
  in their original order: the list is reversed, sorted upwards, and reversed again.
  Keys are compared as Python compares them: two \<open>int\<close>s by value, two \<open>str\<close>s
  lexicographically by character code, and anything else raises \<open>TypeError\<close>; a list of
  at most one record needs no comparison.
\<close>

definition sort_key_of :: "dict \<Rightarrow> pyval" where
  "sort_key_of x = (case dict_get x ''Relevancy Score (%)'' of None \<Rightarrow> IntV 0 | Some v \<Rightarrow> v)"

definition py_sorted_reverse :: "('a \<Rightarrow> 'k::linorder) \<Rightarrow> 'a list \<Rightarrow> 'a list" where
  "py_sorted_reverse key xs = rev (sort_key key (rev xs))"

fun is_int_val :: "pyval \<Rightarrow> bool" where
  "is_int_val (IntV n) = True"
| "is_int_val _ = False"

fun is_str_val :: "pyval \<Rightarrow> bool" where
  "is_str_val (Str s) = True"
| "is_str_val _ = False"

fun int_val :: "pyval \<Rightarrow> int" where
  "int_val (IntV n) = n"
| "int_val _ = 0"

fun str_val :: "pyval \<Rightarrow> string" where
  "str_val (Str s) = s"
| "str_val _ = []"

definition sorted_leads_of :: "dict list \<Rightarrow> exn + dict list" where
  "sorted_leads_of leads =
     (let keys = map sort_key_of leads in
      if length leads \<le> 1 then Inr leads
      else if list_all is_int_val keys
        then Inr (py_sorted_reverse (\<lambda>x. int_val (sort_key_of x)) leads)
      else if list_all is_str_val keys
        then Inr (py_sorted_reverse (\<lambda>x. str_val (sort_key_of x)) leads)
      else Inl TypeError)"

text \<open>
  The file that \<open>DataFrame(sorted_leads).reindex(columns=fields, fill_value="")\<close> and
  \<open>to_csv\<close> write: the header is \<open>fields\<close> (here \<open>export_fields\<close>), and each lead gives one row with one cell
  per field, in that order. A key that the lead does not have, and a \<open>None\<close>, are
  written as the empty field. The model keeps the value of a cell and leaves the
  rendering of numbers and the quoting to the library.
\<close>

definition export_fields :: "string list" where
  "export_fields =
     [''Company Name'', ''Product Title/Description'', ''Price'', ''Address'', ''Phone Number'',
      ''Email'', ''Product Catalog URL'', ''Company Profile URL'', ''Relevancy Score (%)'']"

definition csv_cell :: "dict \<Rightarrow> string \<Rightarrow> pyval" where
  "csv_cell lead field =
     (case dict_get lead field of None \<Rightarrow> Str [] | Some NoneV \<Rightarrow> Str [] | Some v \<Rightarrow> v)"

definition csv_row :: "dict \<Rightarrow> pyval list" where
  "csv_row lead = map (csv_cell lead) export_fields"

datatype csv_file = CsvFile (csv_header: "string list") (csv_rows: "pyval list list")

text \<open>
  \<open>export_to_csv(self, filename)\<close>: what the method returns or raises, and the file
  written, if any. The calls of lines 814-818 are library code that may raise (a file
  that cannot be written, for one): \<open>to_csv\<close> gives the exception raised on writing
  the table under the file name, if any, and in the model a write that raises leaves no
  file. The \<open>except Exception\<close> of line 821 logs the exception, also the \<open>TypeError\<close>
  of the sort, and returns \<open>False\<close>; an exception that is not an \<open>Exception\<close> leaves
  the method.
\<close>

definition export_to_csv ::
  "(string \<Rightarrow> csv_file \<Rightarrow> exn option) \<Rightarrow> dict list \<Rightarrow> string \<Rightarrow> (exn + bool) \<times> csv_file option" where
  "export_to_csv to_csv leads filename =
     (if leads = [] then (Inr False, None)
      else case sorted_leads_of leads of
             Inl e \<Rightarrow> (if is_Exception e then Inr False else Inl e, None)
           | Inr sorted_leads \<Rightarrow>
               (let df = CsvFile export_fields (map csv_row sorted_leads) in
                case to_csv filename df of
                  None \<Rightarrow> (Inr True, Some df)
                | Some e \<Rightarrow> (if is_Exception e then Inr False else Inl e, None)))"

text \<open>Two file systems to export to: one where the write goes through, one where it
  raises \<open>OSError\<close>.\<close>

definition writable :: "string \<Rightarrow> csv_file \<Rightarrow> exn option" where
  "writable filename df = None"

definition read_only :: "string \<Rightarrow> csv_file \<Rightarrow> exn option" where
  "read_only filename df = Some OSError"

text \<open>The score of a stored lead, and the leads whose score is an \<open>int\<close> or missing.\<close>

definition score_of :: "dict \<Rightarrow> int" where
  "score_of lead = int_val (sort_key_of lead)"

definition has_int_score :: "dict \<Rightarrow> bool" where
  "has_int_score lead = is_int_val (sort_key_of lead)"

text \<open>The two leads of the export scenario; the first has no \<open>Price\<close>.\<close>

definition lead_70 :: dict where
  "lead_70 = [(''Company Name'', Str ''Bat House''), (''Product Title/Description'', Str ''Tennis Ball''),
              (''Address'', Str ''Pune''), (''Phone Number'', Str []), (''Email'', Str []),
              (''Product Catalog URL'', Str []), (''Company Profile URL'', NoneV),
              (''Relevancy Score (%)'', IntV 70)]"

definition lead_95 :: dict where
  "lead_95 = [(''Company Name'', Str ''Acme Sports''), (''Product Title/Description'', Str ''Cricket Ball''),
              (''Price'', Str ''Rs 250''), (''Address'', Str ''Meerut''), (''Phone Number'', Str ''9876543210''),
              (''Email'', Str ''sales@acme.com''), (''Product Catalog URL'', Str []),
              (''Company Profile URL'', Str ''https://www.indiamart.com/acme-sports/''),
              (''Relevancy Score (%)'', IntV 95)]"

section \<open>The browser session\<close>

text \<open>
  Selenium is a library: the model keeps of the browser what the scraper's window
  handling reads and writes, the list of open window handles and the focused one
  (\<open>None\<close> after the focused window was closed). Handles are numbered; as the
  non-empty strings they are in Python, they are all true in a condition.

  Any driver command may fail. \<open>faults\<close> is the script of the session: each command
  takes the next entry, raises it if there is one, and does its work otherwise; when the
  script is used up no command fails any more. A command that raises changes nothing.
\<close>

type_synonym handle = nat

record driver =
  window_handles :: "handle list"
  current_window_handle :: "handle option"
  faults :: "exn option list"

definition next_fault :: "driver \<Rightarrow> exn option \<times> driver" where
  "next_fault d = (case faults d of [] \<Rightarrow> (None, d) | f # fs \<Rightarrow> (f, d\<lparr>faults := fs\<rparr>))"

text \<open>\<open>driver.window_handles\<close> and \<open>driver.current_window_handle\<close>.\<close>

definition get_window_handles :: "driver \<Rightarrow> (exn + handle list) \<times> driver" where
  "get_window_handles d =
     (case next_fault d of
        (Some e, d') \<Rightarrow> (Inl e, d')
      | (None, d') \<Rightarrow> (Inr (window_handles d'), d'))"

definition get_current_window_handle :: "driver \<Rightarrow> (exn + handle) \<times> driver" where
  "get_current_window_handle d =
     (case next_fault d of
        (Some e, d') \<Rightarrow> (Inl e, d')
      | (None, d') \<Rightarrow>
          (case current_window_handle d' of
             None \<Rightarrow> (Inl NoSuchWindowException, d')
           | Some h \<Rightarrow> (Inr h, d')))"

text \<open>\<open>driver.execute_script("window.open(url, '_blank');")\<close>: a new window with a handle
  not in use, unless the page's pop-up does not open; the focus stays where it is.\<close>

definition fresh_handle :: "handle list \<Rightarrow> handle" where
  "fresh_handle hs = Suc (fold max hs 0)"

definition execute_script_window_open :: "bool \<Rightarrow> driver \<Rightarrow> (exn + unit) \<times> driver" where
  "execute_script_window_open opens d =
     (case next_fault d of
        (Some e, d') \<Rightarrow> (Inl e, d')
      | (None, d') \<Rightarrow>
          (Inr (),
           if opens
           then d'\<lparr>window_handles := window_handles d' @ [fresh_handle (window_handles d')]\<rparr>
           else d'))"

text \<open>\<open>WebDriverWait(driver, 10).until(EC.new_window_is_opened(old_handles))\<close>: the
  condition is \<open>len(driver.window_handles) > len(old_handles)\<close>, and the wait raises
  \<open>TimeoutException\<close> when it does not come true.\<close>

definition wait_new_window_is_opened :: "handle list \<Rightarrow> driver \<Rightarrow> (exn + unit) \<times> driver" where
  "wait_new_window_is_opened old_handles d =
     (case get_window_handles d of
        (Inl e, d') \<Rightarrow> (Inl e, d')
      | (Inr hs, d') \<Rightarrow>
          (if length old_handles < length hs then Inr () else Inl TimeoutException, d'))"

text \<open>\<open>driver.switch_to.window(h)\<close>, \<open>driver.close()\<close> (closes the focused window) and
  \<open>driver.save_screenshot(path)\<close>.\<close>

definition switch_to_window :: "handle \<Rightarrow> driver \<Rightarrow> (exn + unit) \<times> driver" where
  "switch_to_window h d =
     (case next_fault d of
        (Some e, d') \<Rightarrow> (Inl e, d')
      | (None, d') \<Rightarrow>
          if h \<in> set (window_handles d')
          then (Inr (), d'\<lparr>current_window_handle := Some h\<rparr>)
          else (Inl NoSuchWindowException, d'))"

definition close_window :: "driver \<Rightarrow> (exn + unit) \<times> driver" where
  "close_window d =
     (case next_fault d of
        (Some e, d') \<Rightarrow> (Inl e, d')
      | (None, d') \<Rightarrow>
          (case current_window_handle d' of
             None \<Rightarrow> (Inl NoSuchWindowException, d')
           | Some h \<Rightarrow>
               if h \<in> set (window_handles d')
               then (Inr (), d'\<lparr>window_handles := removeAll h (window_handles d'),
                                current_window_handle := None\<rparr>)
               else (Inl NoSuchWindowException, d')))"

definition save_screenshot :: "driver \<Rightarrow> (exn + unit) \<times> driver" where
  "save_screenshot d =
     (case next_fault d of
        (Some e, d') \<Rightarrow> (Inl e, d')
      | (None, d') \<Rightarrow> (Inr (), d'))"

section \<open>Profile enrichment (scraper.py, lines 439-627)\<close>

text \<open>
  What the profile page shows, as far as the method looks: for each element it waits
  for, the text read from it or the exception raised on the way. Looking at the page
  and clicking on it does not open or close windows in the model.
\<close>

record profile_page =
  opens_window :: bool
  body_present :: "exn + unit"
  first_heading :: "exn + string"
  ask_price :: "exn + string"
  company_heading :: "exn + string"
  city_highlight :: "exn + string"
  directions_address :: "exn + string"
  revealed_phone :: "exn + string"
  email_element :: "exn + string option list"
  email_candidates :: "exn + string list"
  catalog_links :: "exn + string option list"

text \<open>\<open>except (NoSuchElementException, TimeoutException)\<close>.\<close>

definition not_found :: "exn \<Rightarrow> bool" where
  "not_found e = (e = NoSuchElementException \<or> e = TimeoutException)"

text \<open>
  The steps that fill \<open>seller_info\<close>. Each returns the exception that leaves the step,
  if any, and the dictionary as the step left it: the dictionary is changed in place,
  so what was written before an exception stays written.

  Lines 472-480, 483-491 and 494-502: title, price and company name, only when not set.
\<close>

definition backfill_title :: "profile_page \<Rightarrow> dict \<Rightarrow> exn option \<times> dict" where
  "backfill_title page seller_info =
     (case dict_item seller_info ''Product Title/Description'' of
        Inl e \<Rightarrow> (Some e, seller_info)
      | Inr v \<Rightarrow>
          if \<not> truthy v then
            (case first_heading page of
               Inr text \<Rightarrow>
                 (None, dict_set seller_info ''Product Title/Description'' (Str (py_strip text)))
             | Inl e \<Rightarrow> if not_found e then (None, seller_info) else (Some e, seller_info))
          else (None, seller_info))"

definition backfill_price :: "profile_page \<Rightarrow> dict \<Rightarrow> exn option \<times> dict" where
  "backfill_price page seller_info =
     (case dict_item seller_info ''Price'' of
        Inl e \<Rightarrow> (Some e, seller_info)
      | Inr v \<Rightarrow>
          if v = Str ''Not Listed'' then
            (case ask_price page of
               Inr text \<Rightarrow> (None, dict_set seller_info ''Price'' (Str (py_strip text)))
             | Inl e \<Rightarrow> if not_found e then (None, seller_info) else (Some e, seller_info))
          else (None, seller_info))"

definition backfill_company :: "profile_page \<Rightarrow> dict \<Rightarrow> exn option \<times> dict" where
  "backfill_company page seller_info =
     (case dict_item seller_info ''Company Name'' of
        Inl e \<Rightarrow> (Some e, seller_info)
      | Inr v \<Rightarrow>
          if \<not> truthy v then
            (case company_heading page of
               Inr text \<Rightarrow> (None, dict_set seller_info ''Company Name'' (Str (py_strip text)))
             | Inl e \<Rightarrow> if not_found e then (None, seller_info) else (Some e, seller_info))
          else (None, seller_info))"

text \<open>Lines 506-523: the address, from the product heading or else from the contact
  details; it replaces what the listing gave.\<close>

definition overwrite_address :: "profile_page \<Rightarrow> dict \<Rightarrow> exn option \<times> dict" where
  "overwrite_address page seller_info =
     (case city_highlight page of
        Inr text \<Rightarrow> (None, dict_set seller_info ''Address'' (Str (py_strip text)))
      | Inl e \<Rightarrow>
          if not_found e then
            (case directions_address page of
               Inr text \<Rightarrow> (None, dict_set seller_info ''Address'' (Str (py_strip text)))
             | Inl e' \<Rightarrow> if not_found e' then (None, seller_info) else (Some e', seller_info))
          else (Some e, seller_info))"

text \<open>Lines 526-545: the phone number behind the "View Mobile No." button. Both
  \<open>except\<close> clauses only log, so every \<open>Exception\<close> ends the step quietly.\<close>

definition backfill_phone :: "profile_page \<Rightarrow> dict \<Rightarrow> exn option \<times> dict" where
  "backfill_phone page seller_info =
     (case dict_item seller_info ''Phone Number'' of
        Inl e \<Rightarrow> (Some e, seller_info)
      | Inr v \<Rightarrow>
          if \<not> truthy v then
            (case revealed_phone page of
               Inr text \<Rightarrow>
                 (None, dict_set seller_info ''Phone Number'' (Str (validate_phone (py_strip text))))
             | Inl e \<Rightarrow> if is_Exception e then (None, seller_info) else (Some e, seller_info))
          else (None, seller_info))"

text \<open>Lines 548-572: the email, from the first \<open>mailto:\<close> link of the "Send Email"
  element, or else the first text on the page that \<open>validate_email\<close> accepts. An
  \<open>href\<close> that is \<open>None\<close> has no \<open>replace\<close>: \<open>AttributeError\<close>, logged like the rest.\<close>

fun first_valid_email :: "string list \<Rightarrow> string option" where
  "first_valid_email [] = None"
| "first_valid_email (text # candidates) =
     (let extracted_email = validate_email (py_strip text) in
      if extracted_email \<noteq> [] then Some extracted_email else first_valid_email candidates)"

definition email_lookup :: "profile_page \<Rightarrow> exn + string option" where
  "email_lookup page =
     and_then (email_element page) (\<lambda>mailto_link_element.
       case mailto_link_element of
         href # rest \<Rightarrow>
           (case href of
              None \<Rightarrow> Inl AttributeError
            | Some mailto_href \<Rightarrow>
                Inr (Some (validate_email (py_strip (py_replace ''mailto:'' [] mailto_href)))))
       | [] \<Rightarrow> and_then (email_candidates page) (\<lambda>candidates. Inr (first_valid_email candidates)))"

definition backfill_email :: "profile_page \<Rightarrow> dict \<Rightarrow> exn option \<times> dict" where
  "backfill_email page seller_info =
     (case dict_item seller_info ''Email'' of
        Inl e \<Rightarrow> (Some e, seller_info)
      | Inr v \<Rightarrow>
          if \<not> truthy v then
            (case email_lookup page of
               Inr (Some email) \<Rightarrow> (None, dict_set seller_info ''Email'' (Str email))
             | Inr None \<Rightarrow> (None, seller_info)
             | Inl e \<Rightarrow> if is_Exception e then (None, seller_info) else (Some e, seller_info))
          else (None, seller_info))"

text \<open>Lines 575-592: the first catalog link whose \<open>href\<close> is a PDF or on a catalog host.\<close>

fun first_catalog_href :: "string option list \<Rightarrow> string option" where
  "first_catalog_href [] = None"
| "first_catalog_href (None # links) = first_catalog_href links"
| "first_catalog_href (Some href # links) =
     (if href \<noteq> [] \<and> (py_in ''.pdf'' (py_lower href) \<or> py_in ''catalog.indiamart.com'' href \<or>
                       py_in ''brochure.indiamart.com'' href)
      then Some href else first_catalog_href links)"

definition backfill_catalog :: "profile_page \<Rightarrow> dict \<Rightarrow> exn option \<times> dict" where
  "backfill_catalog page seller_info =
     (case dict_item seller_info ''Product Catalog URL'' of
        Inl e \<Rightarrow> (Some e, seller_info)
      | Inr v \<Rightarrow>
          if \<not> truthy v then
            (case catalog_links page of
               Inr links \<Rightarrow>
                 (case first_catalog_href links of
                    Some href \<Rightarrow> (None, dict_set seller_info ''Product Catalog URL'' (Str href))
                  | None \<Rightarrow> (None, seller_info))
             | Inl e \<Rightarrow> if is_Exception e then (None, seller_info) else (Some e, seller_info))
          else (None, seller_info))"

text \<open>One step after the other, until one raises.\<close>

definition then_step ::
  "(dict \<Rightarrow> exn option \<times> dict) \<Rightarrow> (dict \<Rightarrow> exn option \<times> dict) \<Rightarrow> dict \<Rightarrow> exn option \<times> dict" where
  "then_step f g seller_info =
     (case f seller_info of
        (Some e, seller_info') \<Rightarrow> (Some e, seller_info')
      | (None, seller_info') \<Rightarrow> g seller_info')"

definition extract_fields :: "profile_page \<Rightarrow> dict \<Rightarrow> exn option \<times> dict" where
  "extract_fields page =
     then_step (backfill_title page)
    (then_step (backfill_price page)
    (then_step (backfill_company page)
    (then_step (overwrite_address page)
    (then_step (backfill_phone page)
    (then_step (backfill_email page)
               (backfill_catalog page))))))"

text \<open>Lines 454-464: open the profile in a new window and find its handle, the first
  one that was not there before.\<close>

definition open_profile_window :: "profile_page \<Rightarrow> driver \<Rightarrow> (exn + handle option) \<times> driver" where
  "open_profile_window page d =
     (case get_window_handles d of
        (Inl e, d1) \<Rightarrow> (Inl e, d1)
      | (Inr old_handles, d1) \<Rightarrow>
     (case execute_script_window_open (opens_window page) d1 of
        (Inl e, d2) \<Rightarrow> (Inl e, d2)
      | (Inr u, d2) \<Rightarrow>
     (case wait_new_window_is_opened old_handles d2 of
        (Inl e, d3) \<Rightarrow> (Inl e, d3)
      | (Inr u', d3) \<Rightarrow>
     (case get_window_handles d3 of
        (Inl e, d4) \<Rightarrow> (Inl e, d4)
      | (Inr hs, d4) \<Rightarrow> (Inr (find (\<lambda>h. h \<notin> set old_handles) hs), d4)))))"

text \<open>The \<open>try\<close> block, lines 452-596: the exception that leaves it, if any, the driver,
  the dictionary, and \<open>new_window_handle\<close> as the \<open>finally\<close> clause will see it.\<close>

definition try_block ::
  "profile_page \<Rightarrow> driver \<Rightarrow> dict \<Rightarrow> exn option \<times> driver \<times> dict \<times> handle option" where
  "try_block page d seller_info =
     (case open_profile_window page d of
        (Inl e, d1) \<Rightarrow> (Some e, d1, seller_info, None)
      | (Inr None, d1) \<Rightarrow> (Some NoSuchElementException, d1, seller_info, None)
      | (Inr (Some new_window_handle), d1) \<Rightarrow>
          (case switch_to_window new_window_handle d1 of
             (Inl e, d2) \<Rightarrow> (Some e, d2, seller_info, Some new_window_handle)
           | (Inr u, d2) \<Rightarrow>
               (case body_present page of
                  Inl e \<Rightarrow> (Some e, d2, seller_info, Some new_window_handle)
                | Inr u' \<Rightarrow>
                    (case extract_fields page seller_info of
                       (r, seller_info') \<Rightarrow> (r, d2, seller_info', Some new_window_handle)))))"

text \<open>The two \<open>except\<close> clauses, lines 598-605: log, take a screenshot, raise again. An
  exception of the screenshot takes the place of the one being handled.\<close>

definition handle_error :: "exn option \<Rightarrow> driver \<Rightarrow> exn option \<times> driver" where
  "handle_error r d =
     (case r of
        None \<Rightarrow> (None, d)
      | Some e \<Rightarrow>
          if is_Exception e then
            (case save_screenshot d of
               (Inl e', d') \<Rightarrow> (Some e', d')
             | (Inr u, d') \<Rightarrow> (Some e, d'))
          else (Some e, d))"

text \<open>The \<open>finally\<close> clause, lines 606-625: close the new window if it is still open,
  then switch back to the search results window. Both attempts log a
  \<open>WebDriverException\<close> and go on. The result is the exception that leaves the clause,
  if any.\<close>

definition close_profile_window :: "handle option \<Rightarrow> driver \<Rightarrow> exn option \<times> driver" where
  "close_profile_window new_window_handle d =
     (case new_window_handle of
        None \<Rightarrow> (None, d)
      | Some h \<Rightarrow>
          (case get_window_handles d of
             (Inl e, d1) \<Rightarrow> (Some e, d1)
           | (Inr hs, d1) \<Rightarrow>
               if h \<in> set hs then
                 (case switch_to_window h d1 of
                    (Inl e, d2) \<Rightarrow> (if is_WebDriverException e then None else Some e, d2)
                  | (Inr u, d2) \<Rightarrow>
                      (case close_window d2 of
                         (Inl e, d3) \<Rightarrow> (if is_WebDriverException e then None else Some e, d3)
                       | (Inr u', d3) \<Rightarrow> (None, d3)))
               else (None, d1)))"

definition cleanup :: "handle option \<Rightarrow> handle \<Rightarrow> driver \<Rightarrow> exn option \<times> driver" where
  "cleanup new_window_handle search_results_window_handle d =
     (case close_profile_window new_window_handle d of
        (Some e, d1) \<Rightarrow> (Some e, d1)
      | (None, d1) \<Rightarrow>
          (case switch_to_window search_results_window_handle d1 of
             (Inl e, d2) \<Rightarrow> (if is_WebDriverException e then None else Some e, d2)
           | (Inr u, d2) \<Rightarrow> (None, d2)))"

text \<open>The body of \<open>_extract_detailed_info_from_profile\<close>. Its state is the driver and
  the dictionary it was given.\<close>

definition needs_enrichment :: "dict \<Rightarrow> bool" where
  "needs_enrichment seller_info =
     (\<not> get_truthy seller_info ''Phone Number'' \<or> \<not> get_truthy seller_info ''Email'' \<or>
      \<not> get_truthy seller_info ''Product Catalog URL'')"

definition extract_detailed_info_body ::
  "profile_page \<Rightarrow> handle \<Rightarrow> driver \<times> dict \<Rightarrow> (exn + unit) \<times> (driver \<times> dict)" where
  "extract_detailed_info_body page search_results_window_handle st =
     (case st of (d, seller_info) \<Rightarrow>
        if needs_enrichment seller_info \<and> get_truthy seller_info ''Company Profile URL'' then
          (case try_block page d seller_info of
             (r1, d1, seller_info', new_window_handle) \<Rightarrow>
          (case handle_error r1 d1 of
             (r2, d2) \<Rightarrow>
          (case cleanup new_window_handle search_results_window_handle d2 of
             (Some e, d3) \<Rightarrow> (Inl e, (d3, seller_info'))
           | (None, d3) \<Rightarrow>
               (case r2 of
                  Some e \<Rightarrow> (Inl e, (d3, seller_info'))
                | None \<Rightarrow> (Inr (), (d3, seller_info'))))))
        else (Inr (), (d, seller_info)))"

text \<open>The method as the class has it, decorated with \<open>@retry(max_attempts=2, delay=1)\<close>.\<close>

definition extract_detailed_info_from_profile ::
  "profile_page \<Rightarrow> handle \<Rightarrow> driver \<times> dict \<Rightarrow> (exn + unit option) \<times> (driver \<times> dict) \<times> nat" where
  "extract_detailed_info_from_profile page search_results_window_handle =
     retry 2 1 (py_def ''_extract_detailed_info_from_profile''
                  ''Visits the company's profile page to extract more detailed information''
                  (extract_detailed_info_body page search_results_window_handle))"

text \<open>A profile page where everything is found, a lead that lacks its contact fields,
  and a session with the search results in window 1.\<close>

definition acme_profile :: profile_page where
  "acme_profile =
     \<lparr>opens_window = True, body_present = Inr (),
      first_heading = Inr ''Leather Cricket Ball'', ask_price = Inr ''Rs 250 / Piece'',
      company_heading = Inr ''Acme Sports'', city_highlight = Inr ''Meerut, Uttar Pradesh'',
      directions_address = Inl NoSuchElementException, revealed_phone = Inr ''+91 98765 43210'',
      email_element = Inr [Some ''mailto:Sales@Acme.com''], email_candidates = Inr [],
      catalog_links = Inr []\<rparr>"

definition acme_listing :: dict where
  "acme_listing =
     [(''Company Name'', Str ''Acme Sports''),
      (''Company Profile URL'', Str ''https://www.indiamart.com/acme-sports/''),
      (''Product Title/Description'', Str ''Leather Cricket Ball, size 5''),
      (''Product Catalog URL'', Str []),
      (''Price'', Str ''Not Listed''),
      (''Address'', Str []),
      (''Phone Number'', Str []),
      (''Email'', Str []),
      (''Relevancy Score (%)'', IntV 0)]"

definition results_session :: "exn option list \<Rightarrow> driver" where
  "results_session script =
     \<lparr>window_handles = [0, 1], current_window_handle = Some 1, faults = script\<rparr>"

text \<open>
  When the windows come back. A visit issues its driver commands in a fixed order:
  \<open>window_handles\<close> (line 454), \<open>execute_script\<close> (line 455), the wait for the new
  window (line 458), \<open>window_handles\<close> again (line 460), \<open>switch_to.window\<close> into the new
  window (line 464), \<open>save_screenshot\<close> (line 604) when an \<open>Exception\<close> left the \<open>try\<close>
  block, and then the four commands of the \<open>finally\<close> clause: \<open>window_handles\<close> (line 608),
  \<open>switch_to.window\<close> into the new window (line 611), \<open>close\<close> (line 612) and
  \<open>switch_to.window\<close> back to the search results (line 622). \<open>fault_at k script\<close> is what
  the script holds for the command issued after \<open>k\<close> others.
\<close>

definition fault_at :: "nat \<Rightarrow> exn option list \<Rightarrow> exn option" where
  "fault_at k script = (case drop k script of [] \<Rightarrow> None | f # rest \<Rightarrow> f)"

text \<open>The condition of line 448: some contact field is missing and there is a profile URL.\<close>

definition visits_profile :: "dict \<Rightarrow> bool" where
  "visits_profile seller_info =
     (needs_enrichment seller_info \<and> get_truthy seller_info ''Company Profile URL'')"

text \<open>The exception, if any, that the reading of the page (lines 467-596) raises.\<close>

definition extraction_outcome :: "profile_page \<Rightarrow> dict \<Rightarrow> exn option" where
  "extraction_outcome page seller_info =
     (case body_present page of Inl e \<Rightarrow> Some e | Inr u \<Rightarrow> fst (extract_fields page seller_info))"

text \<open>Once the new window is open and found, an \<open>except\<close> clause takes the screenshot
  when the switch into the window or the reading of the page raised an \<open>Exception\<close>.\<close>

definition screenshot_taken :: "profile_page \<Rightarrow> dict \<Rightarrow> exn option list \<Rightarrow> bool" where
  "screenshot_taken page seller_info script =
     (case (case fault_at 4 script of
              Some e \<Rightarrow> Some e
            | None \<Rightarrow> extraction_outcome page seller_info) of
        Some e \<Rightarrow> is_Exception e
      | None \<Rightarrow> False)"

text \<open>Neither the wait, nor the second reading of the handles, nor any of the four
  commands of the \<open>finally\<close> clause fails. The \<open>finally\<close> clause starts after five
  commands, or six with the screenshot.\<close>

definition cleanup_undisturbed :: "profile_page \<Rightarrow> dict \<Rightarrow> exn option list \<Rightarrow> bool" where
  "cleanup_undisturbed page seller_info script =
     (fault_at 2 script = None \<and> fault_at 3 script = None \<and>
      (let k = (if screenshot_taken page seller_info script then 6 else 5) in
       fault_at k script = None \<and> fault_at (k + 1) script = None \<and>
       fault_at (k + 2) script = None \<and> fault_at (k + 3) script = None))"

text \<open>The sessions from which the method leaves the windows as it found them: the
  profile is not visited, or its window does not open, or the first \<open>window_handles\<close> or
  \<open>execute_script\<close> fails (no window was opened), or the window is opened and found and
  the \<open>finally\<close> clause runs through.\<close>

definition restorable :: "profile_page \<Rightarrow> dict \<Rightarrow> exn option list \<Rightarrow> bool" where
  "restorable page seller_info script =
     (\<not> visits_profile seller_info \<or> \<not> opens_window page \<or>
      fault_at 0 script \<noteq> None \<or> fault_at 1 script \<noteq> None \<or>
      cleanup_undisturbed page seller_info script)"

text \<open>The open windows and the focused one, of a driver and after an invocation; and
  the session whose \<open>k\<close>-th command raises a \<open>WebDriverException\<close>, no other failing.\<close>

definition windows_of :: "driver \<Rightarrow> handle list \<times> handle option" where
  "windows_of d = (window_handles d, current_window_handle d)"

definition windows_after ::
  "(exn + unit option) \<times> (driver \<times> dict) \<times> nat \<Rightarrow> handle list \<times> handle option" where
  "windows_after outcome = windows_of (fst (fst (snd outcome)))"

definition fault_script :: "nat \<Rightarrow> exn option list" where
  "fault_script k = replicate (k - 1) None @ [Some WebDriverException]"

section \<open>Listing extraction (scraper.py, lines 362-437)\<close>

text \<open>
  What a listing card shows: for each element the method looks for, what was read or
  the exception raised on the way. Each inner \<open>try\<close> catches
  \<open>NoSuchElementException\<close> only; any other \<open>Exception\<close> ends the extraction at the
  outer \<open>except\<close>, which logs it and returns the dictionary as far as it was filled.
\<close>

record listing_card =
  product_title :: "exn + string"
  product_href :: "exn + string option"
  price_text :: "exn + string"
  company_name :: "exn + string"
  company_href :: "exn + string option"
  short_location :: "exn + string"
  full_address :: "exn + string"
  direct_phone :: "exn + bool \<times> string"

definition new_seller_info :: dict where
  "new_seller_info =
     [(''Company Name'', Str []),
      (''Company Profile URL'', Str []),
      (''Product Title/Description'', Str []),
      (''Product Catalog URL'', Str []),
      (''Price'', Str ''Not Listed''),
      (''Address'', Str []),
      (''Phone Number'', Str []),
      (''Email'', Str []),
      (''Relevancy Score (%)'', IntV 0)]"

fun href_value :: "string option \<Rightarrow> pyval" where
  "href_value None = NoneV"
| "href_value (Some h) = Str h"

text \<open>\<open>except NoSuchElementException\<close>: the step ends quietly on that exception and
  passes any other on.\<close>

definition missing_element :: "exn \<Rightarrow> dict \<Rightarrow> exn option \<times> dict" where
  "missing_element e seller_info =
     (if e = NoSuchElementException then (None, seller_info) else (Some e, seller_info))"

definition card_product :: "listing_card \<Rightarrow> dict \<Rightarrow> exn option \<times> dict" where
  "card_product seller_element seller_info =
     (case product_title seller_element of
        Inl e \<Rightarrow> missing_element e seller_info
      | Inr text \<Rightarrow>
          (let seller_info1 = dict_set seller_info ''Product Title/Description'' (Str (py_strip text)) in
           case product_href seller_element of
             Inl e \<Rightarrow> missing_element e seller_info1
           | Inr href \<Rightarrow> (None, dict_set seller_info1 ''Company Profile URL'' (href_value href))))"

definition card_price :: "listing_card \<Rightarrow> dict \<Rightarrow> exn option \<times> dict" where
  "card_price seller_element seller_info =
     (case price_text seller_element of
        Inl e \<Rightarrow> missing_element e seller_info
      | Inr text \<Rightarrow> (None, dict_set seller_info ''Price'' (Str (py_strip text))))"

definition card_company :: "listing_card \<Rightarrow> dict \<Rightarrow> exn option \<times> dict" where
  "card_company seller_element seller_info =
     (case company_name seller_element of
        Inl e \<Rightarrow> missing_element e seller_info
      | Inr text \<Rightarrow>
          (let seller_info1 = dict_set seller_info ''Company Name'' (Str (py_strip text)) in
           case dict_item seller_info1 ''Company Profile URL'' of
             Inl e \<Rightarrow> missing_element e seller_info1
           | Inr url \<Rightarrow>
               if \<not> truthy url then
                 (case company_href seller_element of
                    Inl e \<Rightarrow> missing_element e seller_info1
                  | Inr href \<Rightarrow> (None, dict_set seller_info1 ''Company Profile URL'' (href_value href)))
               else (None, seller_info1)))"

definition card_short_location :: "listing_card \<Rightarrow> dict \<Rightarrow> exn option \<times> dict" where
  "card_short_location seller_element seller_info =
     (case short_location seller_element of
        Inl e \<Rightarrow> missing_element e seller_info
      | Inr text \<Rightarrow> (None, dict_set seller_info ''Address'' (Str (py_strip text))))"

definition card_full_address :: "listing_card \<Rightarrow> dict \<Rightarrow> exn option \<times> dict" where
  "card_full_address seller_element seller_info =
     (case full_address seller_element of
        Inl e \<Rightarrow> missing_element e seller_info
      | Inr text \<Rightarrow>
          if py_strip text \<noteq> [] then (None, dict_set seller_info ''Address'' (Str (py_strip text)))
          else (None, seller_info))"

definition card_phone :: "listing_card \<Rightarrow> dict \<Rightarrow> exn option \<times> dict" where
  "card_phone seller_element seller_info =
     (case direct_phone seller_element of
        Inl e \<Rightarrow> missing_element e seller_info
      | Inr (is_displayed, text) \<Rightarrow>
          if is_displayed
          then (None, dict_set seller_info ''Phone Number'' (Str (validate_phone (py_strip text))))
          else (None, seller_info))"

definition extract_seller_info_from_listing :: "listing_card \<Rightarrow> exn + dict" where
  "extract_seller_info_from_listing seller_element =
     (case (then_step (card_product seller_element)
           (then_step (card_price seller_element)
           (then_step (card_company seller_element)
           (then_step (card_short_location seller_element)
           (then_step (card_full_address seller_element)
                      (card_phone seller_element)))))) new_seller_info of
        (None, seller_info) \<Rightarrow> Inr seller_info
      | (Some e, seller_info) \<Rightarrow> if is_Exception e then Inr seller_info else Inl e)"

section \<open>The scraping loop (scraper.py, lines 668-784)\<close>

text \<open>
  The search results are a list of pages. A page is what the loop finds on it: whether
  the listing container appears, the cards (each with the profile page its link
  opens), counted after the "Show more results" loop of lines 698-711, which changes
  neither the store nor the windows, and whether a "Next" button can be clicked. When
  the list is used up, the wait for the container times out.

  The state of the loop is the driver and \<open>self.leads\<close>.
\<close>

record results_page =
  container_present :: "exn + unit"
  cards :: "exn + (listing_card \<times> profile_page) list"
  next_button :: "exn + unit"

definition get_current_url :: "driver \<Rightarrow> (exn + unit) \<times> driver" where
  "get_current_url d =
     (case get_current_window_handle d of
        (Inl e, d') \<Rightarrow> (Inl e, d')
      | (Inr h, d') \<Rightarrow> (Inr (), d'))"

text \<open>Lines 748-754 for one listing: score it, and store it, sanitized, when it has a
  company name or a product title.\<close>

definition score_and_store ::
  "(string \<Rightarrow> string \<Rightarrow> int) \<Rightarrow> string \<Rightarrow> dict \<Rightarrow> dict list \<Rightarrow> exn + dict list" where
  "score_and_store partial_ratio keyword seller_info leads =
     and_then (calculate_relevancy_score partial_ratio seller_info keyword) (\<lambda>score.
       let seller_info1 = dict_set seller_info ''Relevancy Score (%)'' (IntV score) in
       and_then (dict_item seller_info1 ''Company Name'') (\<lambda>name.
         if truthy name then Inr (leads @ [sanitize_data seller_info1])
         else and_then (dict_item seller_info1 ''Product Title/Description'') (\<lambda>title.
           if truthy title then Inr (leads @ [sanitize_data seller_info1]) else Inr leads)))"

text \<open>Lines 740-754: enrich when a contact field is missing, then score and store.\<close>

definition process_lead ::
  "(string \<Rightarrow> string \<Rightarrow> int) \<Rightarrow> string \<Rightarrow> handle \<Rightarrow> dict \<times> profile_page \<Rightarrow>
     driver \<times> dict list \<Rightarrow> exn option \<times> (driver \<times> dict list)" where
  "process_lead partial_ratio keyword search_results_window_handle listing st =
     (case (listing, st) of ((seller_info, page), (d, leads)) \<Rightarrow>
        (case (if needs_enrichment seller_info
               then (case extract_detailed_info_from_profile page search_results_window_handle
                             (d, seller_info) of
                       (Inl e, (d1, seller_info1), calls) \<Rightarrow> (Some e, d1, seller_info1)
                     | (Inr u, (d1, seller_info1), calls) \<Rightarrow> (None, d1, seller_info1))
               else (None, d, seller_info)) of
           (Some e, d1, seller_info1) \<Rightarrow> (Some e, (d1, leads))
         | (None, d1, seller_info1) \<Rightarrow>
             (case score_and_store partial_ratio keyword seller_info1 leads of
                Inl e \<Rightarrow> (Some e, (d1, leads))
              | Inr leads1 \<Rightarrow> (None, (d1, leads1)))))"

text \<open>Lines 736-754: the listings of one page, until \<open>min_leads\<close> are stored.\<close>

fun process_leads ::
  "(string \<Rightarrow> string \<Rightarrow> int) \<Rightarrow> string \<Rightarrow> int \<Rightarrow> handle \<Rightarrow> (dict \<times> profile_page) list \<Rightarrow>
     driver \<times> dict list \<Rightarrow> exn option \<times> (driver \<times> dict list)" where
  "process_leads partial_ratio keyword min_leads sh [] st = (None, st)"
| "process_leads partial_ratio keyword min_leads sh (listing # listings) st =
     (if min_leads \<le> int (length (snd st)) then (None, st)
      else case process_lead partial_ratio keyword sh listing st of
             (Some e, st1) \<Rightarrow> (Some e, st1)
           | (None, st1) \<Rightarrow> process_leads partial_ratio keyword min_leads sh listings st1)"

text \<open>Lines 729-732: the listing extraction of every card of the page.\<close>

fun extract_listings :: "(listing_card \<times> profile_page) list \<Rightarrow> exn + (dict \<times> profile_page) list" where
  "extract_listings [] = Inr []"
| "extract_listings ((seller_element, page) # rest) =
     and_then (extract_seller_info_from_listing seller_element) (\<lambda>seller_info.
     and_then (extract_listings rest) (\<lambda>listings. Inr ((seller_info, page) # listings)))"

text \<open>The \<open>except\<close> clauses of lines 773-780: log, take a screenshot, leave the loop.\<close>

definition page_error :: "exn \<Rightarrow> driver \<times> dict list \<Rightarrow> exn option \<times> (driver \<times> dict list)" where
  "page_error e st =
     (case st of (d, leads) \<Rightarrow>
        if is_Exception e then
          (case save_screenshot d of
             (Inl e', d') \<Rightarrow> (Some e', (d', leads))
           | (Inr u, d') \<Rightarrow> (None, (d', leads)))
        else (Some e, (d, leads)))"

text \<open>Lines 684-771, the body of the \<open>while\<close> loop for one page. The first component
  tells whether the loop goes on to the next page.\<close>

definition scrape_page ::
  "(string \<Rightarrow> string \<Rightarrow> int) \<Rightarrow> string \<Rightarrow> int \<Rightarrow> handle \<Rightarrow> results_page \<Rightarrow>
     driver \<times> dict list \<Rightarrow> bool \<times> exn option \<times> (driver \<times> dict list)" where
  "scrape_page partial_ratio keyword min_leads sh page st =
     (case st of (d, leads) \<Rightarrow>
      case switch_to_window sh d of
        (Inl e, d1) \<Rightarrow> (False, page_error e (d1, leads))
      | (Inr u, d1) \<Rightarrow>
      case get_current_url d1 of
        (Inl e, d2) \<Rightarrow> (False, page_error e (d2, leads))
      | (Inr u, d2) \<Rightarrow>
      case container_present page of
        Inl e \<Rightarrow> (False, page_error e (d2, leads))
      | Inr u \<Rightarrow>
      case cards page of
        Inl e \<Rightarrow> (False, page_error e (d2, leads))
      | Inr seller_elements \<Rightarrow>
          if seller_elements = [] then
            (case save_screenshot d2 of
               (Inl e, d3) \<Rightarrow> (False, page_error e (d3, leads))
             | (Inr u, d3) \<Rightarrow> (False, None, (d3, leads)))
          else
            (case extract_listings seller_elements of
               Inl e \<Rightarrow> (False, page_error e (d2, leads))
             | Inr listings \<Rightarrow>
                 (case process_leads partial_ratio keyword min_leads sh listings (d2, leads) of
                    (Some e, st3) \<Rightarrow> (False, page_error e st3)
                  | (None, (d3, leads3)) \<Rightarrow>
                      if int (length leads3) < min_leads then
                        (case switch_to_window sh d3 of
                           (Inl e, d4) \<Rightarrow>
                             if not_found e then (False, None, (d4, leads3))
                             else (False, page_error e (d4, leads3))
                         | (Inr u, d4) \<Rightarrow>
                             (case next_button page of
                                Inl e \<Rightarrow>
                                  if not_found e then (False, None, (d4, leads3))
                                  else (False, page_error e (d4, leads3))
                              | Inr u \<Rightarrow> (True, None, (d4, leads3))))
                      else (True, None, (d3, leads3)))))"

text \<open>The \<open>while len(self.leads) < min_leads\<close> loop over the pages.\<close>

fun scrape_pages ::
  "(string \<Rightarrow> string \<Rightarrow> int) \<Rightarrow> string \<Rightarrow> int \<Rightarrow> handle \<Rightarrow> results_page list \<Rightarrow>
     driver \<times> dict list \<Rightarrow> exn option \<times> (driver \<times> dict list)" where
  "scrape_pages partial_ratio keyword min_leads sh [] st =
     (if int (length (snd st)) < min_leads
      then (case switch_to_window sh (fst st) of
              (Inl e, d1) \<Rightarrow> page_error e (d1, snd st)
            | (Inr u, d1) \<Rightarrow>
                (case get_current_url d1 of
                   (Inl e, d2) \<Rightarrow> page_error e (d2, snd st)
                 | (Inr u, d2) \<Rightarrow> page_error TimeoutException (d2, snd st)))
      else (None, st))"
| "scrape_pages partial_ratio keyword min_leads sh (page # pages) st =
     (if int (length (snd st)) < min_leads
      then (case scrape_page partial_ratio keyword min_leads sh page st of
              (True, None, st1) \<Rightarrow> scrape_pages partial_ratio keyword min_leads sh pages st1
            | (go_on, r, st1) \<Rightarrow> (r, st1))
      else (None, st))"

text \<open>\<open>scrape_search_results(self, keyword, min_leads)\<close>: the exception that leaves the
  method, if any, the driver, and \<open>self.leads\<close>, which the method returns.\<close>

definition scrape_search_results ::
  "(string \<Rightarrow> string \<Rightarrow> int) \<Rightarrow> string \<Rightarrow> int \<Rightarrow> results_page list \<Rightarrow> driver \<Rightarrow>
     exn option \<times> driver \<times> dict list" where
  "scrape_search_results partial_ratio keyword min_leads pages d =
     (case get_current_window_handle d of
        (Inl e, d1) \<Rightarrow> (Some e, d1, [])
      | (Inr search_results_window_handle, d1) \<Rightarrow>
          (case scrape_pages partial_ratio keyword min_leads search_results_window_handle pages (d1, []) of
             (r, (d2, leads)) \<Rightarrow> (r, d2, leads)))"

text \<open>A field of a stored lead that is a non-empty text.\<close>

definition nonempty_field :: "dict \<Rightarrow> string \<Rightarrow> bool" where
  "nonempty_field lead k = (case dict_get lead k of Some (Str s) \<Rightarrow> s \<noteq> [] | _ \<Rightarrow> False)"

text \<open>The card of the end-to-end scenario, a card on which nothing is found, and a
  results page with both.\<close>

definition acme_card :: listing_card where
  "acme_card =
     \<lparr>product_title = Inr '' Leather Cricket Ball, size 5 '',
      product_href = Inr (Some ''https://www.indiamart.com/acme-sports/''),
      price_text = Inl NoSuchElementException,
      company_name = Inr ''Acme Sports'',
      company_href = Inr (Some ''https://www.indiamart.com/acme-sports/''),
      short_location = Inl NoSuchElementException,
      full_address = Inl NoSuchElementException,
      direct_phone = Inl NoSuchElementException\<rparr>"

definition blank_card :: listing_card where
  "blank_card =
     \<lparr>product_title = Inl NoSuchElementException,
      product_href = Inl NoSuchElementException,
      price_text = Inl NoSuchElementException,
      company_name = Inr ''  '',
      company_href = Inr (Some ''https://www.indiamart.com/nobody/''),
      short_location = Inl NoSuchElementException,
      full_address = Inl NoSuchElementException,
      direct_phone = Inl NoSuchElementException\<rparr>"

definition acme_results :: "results_page list" where
  "acme_results =
     [\<lparr>container_present = Inr (),
       cards = Inr [(blank_card, acme_profile\<lparr>company_heading := Inl NoSuchElementException,
                                              first_heading := Inl TimeoutException\<rparr>),
                    (acme_card, acme_profile)],
       next_button = Inl TimeoutException\<rparr>]"

definition broken_profile :: profile_page where
  "broken_profile = acme_profile\<lparr>company_heading := Inl WebDriverException,
                                  city_highlight := Inl WebDriverException\<rparr>"

text \<open>
  For the invariant of the lead store: the two name fields of a dictionary are stripped
  texts, a step keeps them so, and a stored lead has one of them non-empty.
\<close>

definition names_stripped :: "dict \<Rightarrow> bool" where
  "names_stripped seller_info =
     ((\<exists>n. dict_get seller_info ''Company Name'' = Some (Str n) \<and> stripped n) \<and>
      (\<exists>t. dict_get seller_info ''Product Title/Description'' = Some (Str t) \<and> stripped t))"

definition keeps_names :: "(dict \<Rightarrow> exn option \<times> dict) \<Rightarrow> bool" where
  "keeps_names f = (\<forall>si r si'. names_stripped si \<longrightarrow> f si = (r, si') \<longrightarrow> names_stripped si')"

definition retained :: "dict \<Rightarrow> bool" where
  "retained lead =
     (nonempty_field lead ''Company Name'' \<or> nonempty_field lead ''Product Title/Description'')"

definition acme_stored :: dict where
  "acme_stored =
     [(''Company Name'', Str ''Acme Sports''),
      (''Company Profile URL'', Str ''https://www.indiamart.com/acme-sports/''),
      (''Product Title/Description'', Str ''Leather Cricket Ball, size 5''),
      (''Product Catalog URL'', Str []),
      (''Price'', Str ''Rs 250 / Piece''),
      (''Address'', Str ''Meerut, Uttar Pradesh''),
      (''Phone Number'', Str ''9876543210''),
      (''Email'', Str ''sales@acme.com''),
      (''Relevancy Score (%)'', IntV 84)]"

section \<open>Verification\<close>

subsection \<open>Text lemmas\<close>

lemma split_ne: "py_split c s \<noteq> []"
  by (induction s) (auto split: list.splits)

lemma split_hd: "hd (py_split c s) = takeWhile (\<lambda>x. x \<noteq> c) s"
  using split_ne[of c]
  by (induction s) (auto split: list.splits)

lemma py_in_single: "py_in [c] s = (c \<in> set s)"
  by (induction s) (auto simp: py_startswith_def)

lemma split_second:
  "c \<in> set s \<Longrightarrow> py_index (py_split c s) (Suc 0) = Inr (takeWhile (\<lambda>x. x \<noteq> c) (tl (dropWhile (\<lambda>x. x \<noteq> c) s)))"
proof (induction s)
  case Nil
  then show ?case by simp
next
  case (Cons x xs)
  show ?case
  proof (cases "x = c")
    case True
    then show ?thesis
      using split_ne[of c xs] split_hd[of c xs]
      by (cases "py_split c xs") (auto simp: py_index_def)
  next
    case False
    with Cons.prems have "c \<in> set xs" by simp
    from Cons.IH[OF this] False show ?thesis
      using split_ne[of c xs]
      by (cases "py_split c xs") (auto simp: py_index_def split: if_splits)
  qed
qed

lemma replace_char:
  "py_replace_ne [c] [d] s = map (\<lambda>x. if x = c then d else x) s"
proof (induction s)
  case Nil
  then show ?case by (simp add: py_replace_ne.simps)
next
  case (Cons a s)
  then show ?case
    by (subst py_replace_ne.simps) (simp add: py_startswith_def)
qed

lemma replace_absent: "\<not> py_in old s \<Longrightarrow> py_replace_ne old new s = s"
proof (induction s)
  case Nil
  then show ?case by (simp add: py_replace_ne.simps)
next
  case (Cons a s)
  then show ?case
    by (subst py_replace_ne.simps) simp
qed

lemma stripped_strip: "stripped (py_strip s)"
proof -
  define u where "u = dropWhile py_isspace s"
  define v where "v = dropWhile py_isspace (rev u)"
  have r: "py_strip s = rev v" by (simp add: py_strip_def u_def v_def)
  show ?thesis
  proof (cases "v = []")
    case True
    then show ?thesis by (simp add: r stripped_def)
  next
    case False
    then have hv: "\<not> py_isspace (hd v)" unfolding v_def by (simp add: hd_dropWhile)
    from False have une: "u \<noteq> []" unfolding v_def by auto
    then have hu: "\<not> py_isspace (hd u)" unfolding u_def by (simp add: hd_dropWhile)
    have "rev u = takeWhile py_isspace (rev u) @ v" by (simp add: v_def)
    then have "last (rev u) = last v" using False by (metis last_appendR)
    then have "last v = hd u" using une by (simp add: last_rev)
    with hu hv False show ?thesis by (simp add: r stripped_def hd_rev last_rev)
  qed
qed

lemma strip_stripped: "stripped s \<Longrightarrow> py_strip s = s"
proof (cases "s = []")
  case True
  then show ?thesis by (simp add: py_strip_def)
next
  case False
  assume "stripped s"
  with False have h: "\<not> py_isspace (hd s)" and l: "\<not> py_isspace (last s)"
    by (auto simp: stripped_def)
  from h False have 1: "dropWhile py_isspace s = s" by (cases s) auto
  from l False have 2: "dropWhile py_isspace (rev s) = rev s"
    by (cases "rev s") (auto simp: last_rev dest: arg_cong[where f=hd])
  show ?thesis by (simp add: py_strip_def 1 2)
qed

lemma collapse_no_double: "\<not> py_in ''  '' (collapse_spaces s)"
proof (induction s rule: collapse_spaces.induct)
  case (1 s)
  then show ?case by (subst collapse_spaces.simps) simp
qed

lemma collapse_fix: "\<not> py_in ''  '' s \<Longrightarrow> collapse_spaces s = s"
  by (subst collapse_spaces.simps) simp

lemma replace_set: "set (py_replace_ne old new s) \<subseteq> set s \<union> set new"
proof (induction old new s rule: py_replace_ne.induct)
  case (1 old new s)
  show ?case
  proof (cases "s = []")
    case True
    then show ?thesis by (simp add: py_replace_ne.simps)
  next
    case ne: False
    show ?thesis
    proof (cases "old \<noteq> [] \<and> py_startswith s old")
      case True
      with 1 ne have "set (py_replace_ne old new (drop (length old) s)) \<subseteq> set (drop (length old) s) \<union> set new"
        by simp
      moreover have "set (drop (length old) s) \<subseteq> set s" by (rule set_drop_subset)
      ultimately show ?thesis using ne True
        by (subst py_replace_ne.simps) auto
    next
      case False
      with 1 ne have "set (py_replace_ne old new (tl s)) \<subseteq> set (tl s) \<union> set new" by simp
      then show ?thesis using ne False
        by (subst py_replace_ne.simps) (cases s; auto)
    qed
  qed
qed

lemma collapse_set: "set (collapse_spaces s) \<subseteq> set s"
proof (induction s rule: collapse_spaces.induct)
  case (1 s)
  show ?case
  proof (cases "py_in ''  '' s")
    case True
    then have "CHR '' '' \<in> set s"
      by (induction s) (auto simp: py_startswith_def)
    moreover have "set (py_replace ''  '' '' '' s) \<subseteq> set s \<union> {CHR '' ''}"
      using replace_set[of "''  ''" "'' ''" s] by (simp add: py_replace_def)
    ultimately have "set (py_replace ''  '' '' '' s) \<subseteq> set s" by auto
    with 1 True show ?thesis by (subst collapse_spaces.simps) auto
  next
    case False
    then show ?thesis by (simp add: collapse_fix)
  qed
qed

lemma replace2_ends:
  "s \<noteq> [] \<Longrightarrow> last s \<noteq> CHR '' '' \<Longrightarrow>
   py_replace_ne ''  '' '' '' s \<noteq> [] \<and> last (py_replace_ne ''  '' '' '' s) = last s"
proof (induction "''  ''" "'' ''" s rule: py_replace_ne.induct)
  case (1 s)
  show ?case
  proof (cases "py_startswith s ''  ''")
    case True
    then have s: "s = ''  '' @ drop 2 s"
      by (metis append_take_drop_id length_Cons list.size(3) numeral_2_eq_2 py_startswith_def)
    with "1.prems" have d: "drop 2 s \<noteq> []" by (metis append_Nil2 last.simps list.distinct(1))
    with s have "last (drop 2 s) = last s" by (metis last_appendR)
    with 1 True d show ?thesis
      by (subst py_replace_ne.simps, subst (2) py_replace_ne.simps) auto
  next
    case False
    show ?thesis
    proof (cases "tl s = []")
      case True
      with "1.prems" False show ?thesis
        by (subst py_replace_ne.simps, subst (2) py_replace_ne.simps)
           (cases s; auto simp: py_replace_ne.simps)
    next
      case nt: False
      with "1.prems" have "last (tl s) = last s" by (cases s) auto
      with 1 False nt show ?thesis
        by (subst py_replace_ne.simps, subst (2) py_replace_ne.simps) (cases s; auto)
    qed
  qed
qed

lemma space_isspace: "py_isspace (CHR '' '')" "py_isspace (CHR 0x0A)" "py_isspace (CHR 0x09)"
  by (simp_all add: py_isspace_def)

lemma replace2_stripped:
  assumes "stripped s" shows "stripped (py_replace ''  '' '' '' s)"
proof (cases "s = []")
  case True
  then show ?thesis by (simp add: py_replace_def py_replace_ne.simps stripped_def)
next
  case False
  with assms have h: "\<not> py_isspace (hd s)" and l: "\<not> py_isspace (last s)"
    by (auto simp: stripped_def)
  from l have "last s \<noteq> CHR '' ''" using space_isspace by auto
  from replace2_ends[OF False this]
  have ne: "py_replace_ne ''  '' '' '' s \<noteq> []" and la: "last (py_replace_ne ''  '' '' '' s) = last s"
    by auto
  from h have "hd s \<noteq> CHR '' ''" using space_isspace by auto
  then have "\<not> py_startswith s ''  ''" using False by (cases s) (auto simp: py_startswith_def)
  then have "hd (py_replace_ne ''  '' '' '' s) = hd s"
    using False by (subst py_replace_ne.simps) simp
  with h l la ne show ?thesis by (simp add: py_replace_def stripped_def)
qed

lemma collapse_stripped: "stripped s \<Longrightarrow> stripped (collapse_spaces s)"
proof (induction s rule: collapse_spaces.induct)
  case (1 s)
  then show ?case
    by (subst collapse_spaces.simps) (simp add: replace2_stripped)
qed

lemma map_space_stripped:
  assumes "stripped s" "py_isspace c"
  shows "stripped (map (\<lambda>x. if x = c then CHR '' '' else x) s)"
proof (cases "s = []")
  case True
  then show ?thesis by (simp add: stripped_def)
next
  case False
  with assms have "hd s \<noteq> c" "last s \<noteq> c" by (auto simp: stripped_def)
  with assms False show ?thesis by (simp add: stripped_def hd_map last_map)
qed

lemma sanitize_str_props:
  "stripped (sanitize_str s) \<and> CHR 0x0A \<notin> set (sanitize_str s) \<and>
   CHR 0x09 \<notin> set (sanitize_str s) \<and> \<not> py_in ''  '' (sanitize_str s)"
proof -
  define a where "a = py_strip s"
  define b where "b = map (\<lambda>x. if x = CHR 0x0A then CHR '' '' else x) a"
  define c where "c = map (\<lambda>x. if x = CHR 0x09 then CHR '' '' else x) b"
  have e: "sanitize_str s = collapse_spaces c"
    by (simp add: sanitize_str_def py_replace_def replace_char a_def b_def c_def)
  have "stripped a" by (simp add: a_def stripped_strip)
  then have "stripped b" unfolding b_def by (rule map_space_stripped) (simp add: space_isspace)
  then have "stripped c" unfolding c_def by (rule map_space_stripped) (simp add: space_isspace)
  then have 1: "stripped (collapse_spaces c)" by (rule collapse_stripped)
  have "CHR 0x0A \<notin> set b" by (auto simp: b_def)
  then have "CHR 0x0A \<notin> set c" by (auto simp: c_def)
  then have 2: "CHR 0x0A \<notin> set (collapse_spaces c)" using collapse_set[of c] by auto
  have "CHR 0x09 \<notin> set c" by (auto simp: c_def)
  then have 3: "CHR 0x09 \<notin> set (collapse_spaces c)" using collapse_set[of c] by auto
  from 1 2 3 show ?thesis by (simp add: e collapse_no_double)
qed

lemma sanitize_str_fix:
  assumes "stripped s" "CHR 0x0A \<notin> set s" "CHR 0x09 \<notin> set s" "\<not> py_in ''  '' s"
  shows "sanitize_str s = s"
proof -
  have 1: "map (\<lambda>x. if x = CHR 0x0A then CHR '' '' else x) s = s"
    using assms(2) by (induction s) auto
  have 2: "map (\<lambda>x. if x = CHR 0x09 then CHR '' '' else x) s = s"
    using assms(3) by (induction s) auto
  show ?thesis
    using assms(1,4)
    by (simp add: sanitize_str_def py_replace_def replace_char strip_stripped 1 2 collapse_fix)
qed

lemma sanitize_str_idem: "sanitize_str (sanitize_str s) = sanitize_str s"
  using sanitize_str_props[of s] by (simp add: sanitize_str_fix)

lemma sanitize_value_idem: "sanitize_value (sanitize_value v) = sanitize_value v"
  by (cases v) (simp_all add: sanitize_str_idem)

lemma sanitize_data_idem:
  "sanitize_data (sanitize_data d) = sanitize_data d"
  by (induction d) (auto simp: sanitize_data_def sanitize_value_idem)

lemma digit_chars:
  "char_of (48::nat) = CHR ''0''" "char_of (49::nat) = CHR ''1''" "char_of (50::nat) = CHR ''2''"
  "char_of (51::nat) = CHR ''3''" "char_of (52::nat) = CHR ''4''" "char_of (53::nat) = CHR ''5''"
  "char_of (54::nat) = CHR ''6''" "char_of (55::nat) = CHR ''7''" "char_of (56::nat) = CHR ''8''"
  "char_of (57::nat) = CHR ''9''" "char_of (178::nat) = CHR 0xB2" "char_of (179::nat) = CHR 0xB3"
  "char_of (185::nat) = CHR 0xB9"
  by code_simp+

lemma py_isdigit_iff:
  "py_isdigit c \<longleftrightarrow> c \<in> set ''0123456789'' \<or> c \<in> {CHR 0xB2, CHR 0xB3, CHR 0xB9}"
proof
  assume "py_isdigit c"
  then have "(of_char c :: nat) \<in> {48, 49, 50, 51, 52, 53, 54, 55, 56, 57, 178, 179, 185}"
    unfolding py_isdigit_def Let_def by (simp only: insert_iff empty_iff) arith
  then have "char_of (of_char c :: nat) \<in> char_of ` {48::nat, 49, 50, 51, 52, 53, 54, 55, 56, 57, 178, 179, 185}"
    by (rule imageI)
  then show "c \<in> set ''0123456789'' \<or> c \<in> {CHR 0xB2, CHR 0xB3, CHR 0xB9}"
    by (simp add: digit_chars)
next
  assume "c \<in> set ''0123456789'' \<or> c \<in> {CHR 0xB2, CHR 0xB3, CHR 0xB9}"
  then show "py_isdigit c"
    by (auto simp: py_isdigit_def)
qed

lemma space_chars:
  "char_of (9::nat) = CHR 0x09" "char_of (10::nat) = CHR 0x0A" "char_of (11::nat) = CHR 0x0B"
  "char_of (12::nat) = CHR 0x0C" "char_of (13::nat) = CHR 0x0D" "char_of (28::nat) = CHR 0x1C"
  "char_of (29::nat) = CHR 0x1D" "char_of (30::nat) = CHR 0x1E" "char_of (31::nat) = CHR 0x1F"
  "char_of (32::nat) = CHR 0x20" "char_of (133::nat) = CHR 0x85" "char_of (160::nat) = CHR 0xA0"
  by code_simp+

lemma py_isspace_iff:
  "py_isspace c \<longleftrightarrow>
     c \<in> {CHR 0x09, CHR 0x0A, CHR 0x0B, CHR 0x0C, CHR 0x0D, CHR 0x1C, CHR 0x1D, CHR 0x1E,
          CHR 0x1F, CHR 0x20, CHR 0x85, CHR 0xA0}"
proof
  assume "py_isspace c"
  then have "(of_char c :: nat) \<in> {9, 10, 11, 12, 13, 28, 29, 30, 31, 32, 133, 160}"
    unfolding py_isspace_def Let_def by (simp only: insert_iff empty_iff) arith
  then have "char_of (of_char c :: nat) \<in> char_of ` {9::nat, 10, 11, 12, 13, 28, 29, 30, 31, 32, 133, 160}"
    by (rule imageI)
  then show "c \<in> {CHR 0x09, CHR 0x0A, CHR 0x0B, CHR 0x0C, CHR 0x0D, CHR 0x1C, CHR 0x1D, CHR 0x1E,
          CHR 0x1F, CHR 0x20, CHR 0x85, CHR 0xA0}"
    by (simp add: space_chars)
next
  assume "c \<in> {CHR 0x09, CHR 0x0A, CHR 0x0B, CHR 0x0C, CHR 0x0D, CHR 0x1C, CHR 0x1D, CHR 0x1E,
          CHR 0x1F, CHR 0x20, CHR 0x85, CHR 0xA0}"
  then show "py_isspace c"
    by (auto simp: py_isspace_def)
qed

lemma strip_decomposition:
  "\<exists>pre post. s = pre @ py_strip s @ post \<and> list_all py_isspace pre \<and> list_all py_isspace post"
proof -
  define u where "u = dropWhile py_isspace s"
  have 1: "s = takeWhile py_isspace s @ u" by (simp add: u_def)
  have "rev (dropWhile py_isspace (rev u)) @ rev (takeWhile py_isspace (rev u)) =
        rev (takeWhile py_isspace (rev u) @ dropWhile py_isspace (rev u))"
    by (simp only: rev_append)
  also have "\<dots> = rev (rev u)" by (simp only: takeWhile_dropWhile_id)
  also have "\<dots> = u" by simp
  finally have 2: "u = py_strip s @ rev (takeWhile py_isspace (rev u))"
    by (simp add: py_strip_def u_def)
  have a: "list_all py_isspace (takeWhile py_isspace s)"
    by (simp add: list_all_iff) (meson set_takeWhileD)
  have b: "list_all py_isspace (rev (takeWhile py_isspace (rev u)))"
    by (simp add: list_all_iff) (meson set_takeWhileD)
  from 1 2 have "s = takeWhile py_isspace s @ py_strip s @ rev (takeWhile py_isspace (rev u))"
    by simp
  with a b show ?thesis by blast
qed

subsection \<open>Phone normalization\<close>

text \<open>
  Claim C4. For every input of \<open>validate_phone\<close>: when the input has exactly 10 digit
  characters the result is those 10 digits; when it has 11 or 12 and the digits begin
  with \<open>91\<close> or \<open>0\<close> the result is the last 10 digits; every other non-empty input
  is returned as it is. The digit characters are those of \<open>str.isdigit\<close>: \<open>0..9\<close> and
  the superscripts \<open>U+00B2\<close>, \<open>U+00B3\<close> and \<open>U+00B9\<close>.
\<close>

theorem validate_phone_spec:
  "(\<forall>c. py_isdigit c \<longleftrightarrow> c \<in> set ''0123456789'' \<or> c \<in> {CHR 0xB2, CHR 0xB3, CHR 0xB9}) \<and>
   (length (filter py_isdigit phone) = 10 \<longrightarrow> validate_phone phone = filter py_isdigit phone) \<and>
   (length (filter py_isdigit phone) \<in> {11, 12} \<and>
      (py_startswith (filter py_isdigit phone) ''91'' \<or> py_startswith (filter py_isdigit phone) ''0'') \<longrightarrow>
      validate_phone phone = drop (length (filter py_isdigit phone) - 10) (filter py_isdigit phone) \<and>
      length (validate_phone phone) = 10) \<and>
   (phone \<noteq> [] \<and> length (filter py_isdigit phone) \<noteq> 10 \<and>
      \<not> (length (filter py_isdigit phone) \<in> {11, 12} \<and>
         (py_startswith (filter py_isdigit phone) ''91'' \<or> py_startswith (filter py_isdigit phone) ''0'')) \<longrightarrow>
      validate_phone phone = phone)"
proof -
  have "\<forall>c. py_isdigit c \<longleftrightarrow> c \<in> set ''0123456789'' \<or> c \<in> {CHR 0xB2, CHR 0xB3, CHR 0xB9}"
    using py_isdigit_iff by blast
  moreover have "length (filter py_isdigit phone) = 10 \<longrightarrow> validate_phone phone = filter py_isdigit phone"
    by (auto simp: validate_phone_def Let_def)
  moreover have "length (filter py_isdigit phone) \<in> {11, 12} \<and>
      (py_startswith (filter py_isdigit phone) ''91'' \<or> py_startswith (filter py_isdigit phone) ''0'') \<longrightarrow>
      validate_phone phone = drop (length (filter py_isdigit phone) - 10) (filter py_isdigit phone) \<and>
      length (validate_phone phone) = 10"
    by (auto simp: validate_phone_def Let_def)
  moreover have "phone \<noteq> [] \<and> length (filter py_isdigit phone) \<noteq> 10 \<and>
      \<not> (length (filter py_isdigit phone) \<in> {11, 12} \<and>
         (py_startswith (filter py_isdigit phone) ''91'' \<or> py_startswith (filter py_isdigit phone) ''0'')) \<longrightarrow>
      validate_phone phone = phone"
    by (auto simp: validate_phone_def Let_def)
  ultimately show ?thesis by blast
qed

theorem validate_phone_spec_witness:
  "validate_phone ''98765 43210'' = ''9876543210'' \<and>
   validate_phone ''+91 98765-43210'' = ''9876543210'' \<and>
   validate_phone ''098765 43210'' = ''9876543210'' \<and>
   validate_phone ''12345'' = ''12345'' \<and>
   validate_phone ''9198765432101'' = ''9198765432101'' \<and>
   validate_phone (CHR 0xB2 # ''1234567890'') = CHR 0xB2 # ''1234567890'' \<and>
   validate_phone (''+91 '' @ CHR 0xB9 # ''234567890'') = CHR 0xB9 # ''234567890'' \<and>
   py_isdigit (CHR 0xB2) \<and> \<not> py_isdigit (CHR 0xBC)"
proof -
  have d: "filter py_isdigit ''98765 43210'' = ''9876543210''"
    "filter py_isdigit ''+91 98765-43210'' = ''919876543210''"
    "filter py_isdigit ''098765 43210'' = ''09876543210''"
    "filter py_isdigit ''12345'' = ''12345''"
    "filter py_isdigit ''9198765432101'' = ''9198765432101''"
    "filter py_isdigit (CHR 0xB2 # ''1234567890'') = CHR 0xB2 # ''1234567890''"
    "filter py_isdigit (''+91 '' @ CHR 0xB9 # ''234567890'') = ''91'' @ CHR 0xB9 # ''234567890''"
    by code_simp+
  have c: "CHR 0xB2 \<in> set ''0123456789'' \<or> CHR 0xB2 \<in> {CHR 0xB2, CHR 0xB3, CHR 0xB9}"
    "\<not> (CHR 0xBC \<in> set ''0123456789'' \<or> CHR 0xBC \<in> {CHR 0xB2, CHR 0xB3, CHR 0xB9})"
    by simp_all
  show ?thesis
    using validate_phone_spec[of "''98765 43210''"] validate_phone_spec[of "''+91 98765-43210''"]
      validate_phone_spec[of "''098765 43210''"] validate_phone_spec[of "''12345''"]
      validate_phone_spec[of "''9198765432101''"]
      validate_phone_spec[of "CHR 0xB2 # ''1234567890''"]
      validate_phone_spec[of "''+91 '' @ CHR 0xB9 # ''234567890''"] c
    unfolding d by (simp add: py_startswith_def)
qed

subsection \<open>Email normalization\<close>

text \<open>
  Claim C5 says that an input with an \<open>@\<close> and a dot in the text after it comes back
  stripped and lowercased. The input \<open>a@b@c.d\<close> has both, and \<open>validate_email\<close>
  answers the empty string: \<open>split('@')[1]\<close> is \<open>b\<close>, the part between the first
  \<open>@\<close> and the second.
\<close>

theorem validate_email_counterexample:
  "py_in ''@'' ''a@b@c.d'' \<and> py_in ''.'' (text_after_at ''a@b@c.d'') \<and>
   validate_email ''a@b@c.d'' = [] \<and> py_lower (py_strip ''a@b@c.d'') = ''a@b@c.d'' \<and>
   validate_email ''a@b@c.d'' \<noteq> py_lower (py_strip ''a@b@c.d'')"
  by code_simp

text \<open>
  Claim C5, amended. For every input of \<open>validate_email\<close>: the result is the input
  stripped and lowercased when the input contains \<open>@\<close> and the part between its first
  \<open>@\<close> and the next \<open>@\<close> (or the end) contains a dot; it is the empty string otherwise.
  Stripping takes whitespace off both ends, and only there, until a character that is
  not whitespace stands at each end; the whitespace characters are the twelve listed;
  lowercasing keeps the length.
\<close>

theorem validate_email_spec:
  "validate_email email =
     (if py_in ''@'' email \<and> py_in ''.'' (segment_after_at email)
      then py_lower (py_strip email) else []) \<and>
   (\<exists>pre post. email = pre @ py_strip email @ post \<and>
      list_all py_isspace pre \<and> list_all py_isspace post \<and> stripped (py_strip email)) \<and>
   (\<forall>c. py_isspace c \<longleftrightarrow>
      c \<in> {CHR 0x09, CHR 0x0A, CHR 0x0B, CHR 0x0C, CHR 0x0D, CHR 0x1C, CHR 0x1D, CHR 0x1E,
           CHR 0x1F, CHR 0x20, CHR 0x85, CHR 0xA0}) \<and>
   length (py_lower (py_strip email)) = length (py_strip email)"
proof -
  have 1: "validate_email email =
     (if py_in ''@'' email \<and> py_in ''.'' (segment_after_at email)
      then py_lower (py_strip email) else [])"
  proof (cases "CHR ''@'' \<in> set email")
    case True
    then have "email \<noteq> []" by auto
    with True show ?thesis
      by (simp add: validate_email_def split_second py_in_single segment_after_at_def text_after_at_def)
  next
    case False
    then show ?thesis
      by (simp add: validate_email_def py_in_single)
  qed
  have 2: "\<exists>pre post. email = pre @ py_strip email @ post \<and>
      list_all py_isspace pre \<and> list_all py_isspace post \<and> stripped (py_strip email)"
    using strip_decomposition[of email] stripped_strip[of email] by blast
  have 3: "\<forall>c. py_isspace c \<longleftrightarrow>
      c \<in> {CHR 0x09, CHR 0x0A, CHR 0x0B, CHR 0x0C, CHR 0x0D, CHR 0x1C, CHR 0x1D, CHR 0x1E,
           CHR 0x1F, CHR 0x20, CHR 0x85, CHR 0xA0}"
    using py_isspace_iff by blast
  have 4: "length (py_lower (py_strip email)) = length (py_strip email)"
    by (simp add: py_lower_def)
  from 1 2 3 4 show ?thesis by blast
qed

theorem validate_email_spec_witness:
  "validate_email '' Sales@Acme.com '' = ''sales@acme.com'' \<and>
   validate_email ''sales.acme.com'' = [] \<and>
   validate_email ''sales@acme'' = [] \<and>
   validate_email ''a@b.c@d'' = ''a@b.c@d'' \<and>
   validate_email ([CHR 0xA0, CHR 0xC9] @ ''@b.c'' @ [CHR 0x85]) = CHR 0xE9 # ''@b.c'' \<and>
   validate_email ([CHR 0xD7, CHR 0xDE, CHR 0xDF] @ ''@Z.A'') = [CHR 0xD7, CHR 0xFE, CHR 0xDF] @ ''@z.a''"
proof -
  let ?u = "[CHR 0xA0, CHR 0xC9] @ ''@b.c'' @ [CHR 0x85]"
  let ?v = "[CHR 0xD7, CHR 0xDE, CHR 0xDF] @ ''@Z.A''"
  have 1: "py_in ''@'' '' Sales@Acme.com '' \<and> py_in ''.'' (segment_after_at '' Sales@Acme.com '')"
    and 2: "py_lower (py_strip '' Sales@Acme.com '') = ''sales@acme.com''"
    and 3: "\<not> py_in ''@'' ''sales.acme.com''"
    and 4: "\<not> py_in ''.'' (segment_after_at ''sales@acme'')"
    and 5: "py_in ''@'' ''a@b.c@d'' \<and> py_in ''.'' (segment_after_at ''a@b.c@d'')"
    and 6: "py_lower (py_strip ''a@b.c@d'') = ''a@b.c@d''"
    and 7: "py_in ''@'' ?u \<and> py_in ''.'' (segment_after_at ?u)"
    and 8: "py_lower (py_strip ?u) = CHR 0xE9 # ''@b.c''"
    and 9: "py_in ''@'' ?v \<and> py_in ''.'' (segment_after_at ?v)"
    and 10: "py_lower (py_strip ?v) = [CHR 0xD7, CHR 0xFE, CHR 0xDF] @ ''@z.a''"
    by code_simp+
  from validate_email_spec[of "'' Sales@Acme.com ''"] have a: "validate_email '' Sales@Acme.com '' = ''sales@acme.com''"
    by (simp only: 1 2 if_True simp_thms)
  from validate_email_spec[of "''sales.acme.com''"] have b: "validate_email ''sales.acme.com'' = []"
    by (simp only: 3 if_False simp_thms)
  from validate_email_spec[of "''sales@acme''"] have c: "validate_email ''sales@acme'' = []"
    by (simp only: 4 if_False simp_thms)
  from validate_email_spec[of "''a@b.c@d''"] have d: "validate_email ''a@b.c@d'' = ''a@b.c@d''"
    by (simp only: 5 6 if_True simp_thms)
  from validate_email_spec[of ?u] have e: "validate_email ?u = CHR 0xE9 # ''@b.c''"
    by (simp only: 7 8 if_True simp_thms)
  from validate_email_spec[of ?v] have f: "validate_email ?v = [CHR 0xD7, CHR 0xFE, CHR 0xDF] @ ''@z.a''"
    by (simp only: 9 10 if_True simp_thms)
  from a b c d e f show ?thesis by blast
qed

subsection \<open>Text sanitization\<close>

text \<open>
  Claim C10. \<open>sanitize_data\<close> is idempotent, and every \<open>str\<close> value of its result is
  stripped, has no line feed and no tab, and has no two spaces in a row.
\<close>

theorem sanitize_data_idempotent:
  "sanitize_data (sanitize_data d) = sanitize_data d \<and>
   (\<forall>key s. (key, Str s) \<in> set (sanitize_data d) \<longrightarrow>
      py_strip s = s \<and> CHR 0x0A \<notin> set s \<and> CHR 0x09 \<notin> set s \<and> \<not> py_in ''  '' s)"
proof -
  have "py_strip s = s \<and> CHR 0x0A \<notin> set s \<and> CHR 0x09 \<notin> set s \<and> \<not> py_in ''  '' s"
    if "(key, Str s) \<in> set (sanitize_data d)" for key s
  proof -
    from that obtain v where "sanitize_value v = Str s"
      by (auto simp: sanitize_data_def)
    then obtain s0 where "s = sanitize_str s0" by (cases v) auto
    then show ?thesis using sanitize_str_props[of s0] by (simp add: strip_stripped)
  qed
  then show ?thesis by (simp add: sanitize_data_idem)
qed

theorem sanitize_data_idempotent_witness:
  "sanitize_data [(''Company Name'', Str (''  Acme '' @ [CHR 0x09] @ '' Sports'' @ [CHR 0x0A, CHR '' ''])),
                  (''Relevancy Score (%)'', IntV 95)]
     = [(''Company Name'', Str ''Acme Sports''), (''Relevancy Score (%)'', IntV 95)] \<and>
   sanitize_data [(''Company Name'', Str ''Acme Sports''), (''Relevancy Score (%)'', IntV 95)]
     = [(''Company Name'', Str ''Acme Sports''), (''Relevancy Score (%)'', IntV 95)] \<and>
   py_strip ''Acme Sports'' = ''Acme Sports'' \<and> \<not> py_in ''  '' ''Acme Sports''"
proof -
  let ?d = "[(''Company Name'', Str (''  Acme '' @ [CHR 0x09] @ '' Sports'' @ [CHR 0x0A, CHR '' ''])),
             (''Relevancy Score (%)'', IntV 95)]"
  have e: "sanitize_data ?d = [(''Company Name'', Str ''Acme Sports''), (''Relevancy Score (%)'', IntV 95)]"
    by code_simp
  from sanitize_data_idempotent[of ?d]
  have "sanitize_data (sanitize_data ?d) = sanitize_data ?d"
    and "py_strip ''Acme Sports'' = ''Acme Sports'' \<and> \<not> py_in ''  '' ''Acme Sports''"
    unfolding e by auto
  with e show ?thesis by simp
qed

subsection \<open>Relevancy score\<close>

lemma count_pos: "sub \<noteq> [] \<Longrightarrow> py_in sub s \<Longrightarrow> 1 \<le> py_count_ne sub s"
proof (induction s)
  case Nil
  then show ?case by simp
next
  case (Cons a s)
  then show ?case
    by (subst py_count_ne.simps) auto
qed

lemma py_count_pos: "py_in sub s \<Longrightarrow> 1 \<le> py_count s sub"
  using count_pos[of sub s] by (auto simp: py_count_def)

lemma int_of_tenths_bounds:
  assumes "0 \<le> r" "r \<le> 100" "0 \<le> k"
  shows "0 \<le> int_of_tenths r k \<and> int_of_tenths r k \<le> 10 * k"
proof -
  have p: "0 \<le> r * k" using assms by simp
  have "r * k \<le> 100 * k" using assms by (simp add: mult_right_mono)
  then have "r * k div 10 \<le> 10 * k" by simp
  moreover have "0 \<le> r * k div 10" using p by simp
  ultimately show ?thesis using p by (simp add: int_of_tenths_def Let_def)
qed

lemma description_points_bounds:
  assumes "\<forall>a b. 0 \<le> pr a b \<and> pr a b \<le> 100"
  shows "0 \<le> description_points pr kw d \<and> description_points pr kw d \<le> 70"
  using assms int_of_tenths_bounds[of "pr kw d" 6]
  by (auto simp: description_points_def)

lemma company_points_bounds:
  assumes "\<forall>a b. 0 \<le> pr a b \<and> pr a b \<le> 100"
  shows "0 \<le> company_points pr kw d \<and> company_points pr kw d \<le> 30"
  using assms int_of_tenths_bounds[of "pr kw d" 3]
  by (auto simp: company_points_def)

lemma bonus_points_bounds: "0 \<le> bonus_points a b c d \<and> bonus_points a b c d \<le> 15"
  by (simp add: bonus_points_def)

lemma lead_record_score:
  assumes "lead_record si"
  obtains desc name phone email address catalog where
    "calculate_relevancy_score pr si kw =
       Inr (min 100 (description_points pr (py_lower kw) (py_lower desc)
          + company_points pr (py_lower kw) (py_lower name)
          + bonus_points phone email address catalog))"
    "dict_get si ''Product Title/Description'' = Some (Str desc)"
    "dict_get si ''Company Name'' = Some (Str name)"
    "dict_get si ''Phone Number'' = Some phone"
    "dict_get si ''Email'' = Some email"
    "dict_get si ''Address'' = Some address"
    "dict_get si ''Product Catalog URL'' = Some catalog"
proof -
  from assms obtain desc where d: "map_of si ''Product Title/Description'' = Some (Str desc)"
    by (auto simp: lead_record_def is_str_field_def dict_get_def split: option.splits pyval.splits)
  from assms obtain name where n: "map_of si ''Company Name'' = Some (Str name)"
    by (auto simp: lead_record_def is_str_field_def dict_get_def split: option.splits pyval.splits)
  from assms obtain phone email address catalog where o:
    "map_of si ''Phone Number'' = Some phone" "map_of si ''Email'' = Some email"
    "map_of si ''Address'' = Some address" "map_of si ''Product Catalog URL'' = Some catalog"
    by (auto simp: lead_record_def has_key_def dict_get_def)
  show ?thesis
    by (rule that[of desc name phone email address catalog])
       (simp_all add: calculate_relevancy_score_def Let_def and_then_def dict_item_def dict_get_def d n o)
qed

text \<open>
  Claim C7. With a fuzzy primitive that answers within 0..100, the score of every lead
  record, for every keyword, is an integer between 0 and 100; and a record whose
  description and company name are empty and whose phone, email, address and catalog
  reference are absent scores exactly 0, whatever the primitive answers.
\<close>

theorem relevancy_score_range:
  "((\<forall>a b. 0 \<le> partial_ratio a b \<and> partial_ratio a b \<le> 100) \<and> lead_record seller_info \<longrightarrow>
      (\<exists>n. calculate_relevancy_score partial_ratio seller_info keyword = Inr n \<and> 0 \<le> n \<and> n \<le> 100)) \<and>
   (empty_lead seller_info \<longrightarrow>
      calculate_relevancy_score partial_ratio seller_info keyword = Inr 0)"
proof (intro conjI impI)
  assume a: "(\<forall>a b. 0 \<le> partial_ratio a b \<and> partial_ratio a b \<le> 100) \<and> lead_record seller_info"
  then have pr: "\<forall>a b. 0 \<le> partial_ratio a b \<and> partial_ratio a b \<le> 100" and l: "lead_record seller_info"
    by auto
  from l obtain desc name phone email address catalog where
    s: "calculate_relevancy_score partial_ratio seller_info keyword =
       Inr (min 100 (description_points partial_ratio (py_lower keyword) (py_lower desc)
          + company_points partial_ratio (py_lower keyword) (py_lower name)
          + bonus_points phone email address catalog))"
    by (rule lead_record_score)
  show "\<exists>n. calculate_relevancy_score partial_ratio seller_info keyword = Inr n \<and> 0 \<le> n \<and> n \<le> 100"
    using description_points_bounds[OF pr, of "py_lower keyword" "py_lower desc"]
      company_points_bounds[OF pr, of "py_lower keyword" "py_lower name"]
      bonus_points_bounds[of phone email address catalog]
    unfolding s by simp
next
  assume "empty_lead seller_info"
  then show "calculate_relevancy_score partial_ratio seller_info keyword = Inr 0"
    by (auto simp: empty_lead_def absent_field_def calculate_relevancy_score_def and_then_def
        dict_item_def dict_get_def description_points_def company_points_def bonus_points_def
        py_lower_def split: option.splits)
qed

theorem relevancy_score_range_witness:
  "calculate_relevancy_score (ratio_const 40) acme_lead ''Cricket Ball'' = Inr 79 \<and>
   (0::int) \<le> 79 \<and> (79::int) \<le> 100 \<and> lead_record acme_lead \<and>
   empty_lead blank_lead \<and>
   calculate_relevancy_score (ratio_const 40) blank_lead ''Cricket Ball'' = Inr 0"
proof -
  have r: "\<forall>a b. 0 \<le> ratio_const 40 a b \<and> ratio_const 40 a b \<le> 100"
    by (simp add: ratio_const_def)
  have l: "lead_record acme_lead" by code_simp
  have e: "empty_lead blank_lead" by code_simp
  have v: "calculate_relevancy_score (ratio_const 40) acme_lead ''Cricket Ball'' = Inr 79"
    by code_simp
  from relevancy_score_range[of "ratio_const 40" acme_lead "''Cricket Ball''"] r l
  have "\<exists>n. calculate_relevancy_score (ratio_const 40) acme_lead ''Cricket Ball'' = Inr n \<and> 0 \<le> n \<and> n \<le> 100"
    by blast
  moreover from relevancy_score_range[of "ratio_const 40" blank_lead "''Cricket Ball''"] e
  have "calculate_relevancy_score (ratio_const 40) blank_lead ''Cricket Ball'' = Inr 0"
    by blast
  ultimately show ?thesis using l e v by simp
qed

text \<open>
  Claim C3 gives the description term as \<open>60 + min(10, 2 (k - 1))\<close> for \<open>k\<close>
  occurrences, and the score of the Acme lead as \<open>60 + 30 + 3 + 2 = 95\<close>. Line 644 adds
  \<open>min(10, count * 2)\<close>: the one occurrence in the Acme description gives 62, not 60.
  The keyword is not a substring of the company name either, so that term is the fuzzy
  one, not 30; with a primitive that answers 40 the score is 79.
\<close>

theorem description_points_counterexample:
  "py_in (py_lower ''Cricket Ball'') (py_lower ''Leather Cricket Ball, size 5'') \<and>
   py_count (py_lower ''Leather Cricket Ball, size 5'') (py_lower ''Cricket Ball'') = 1 \<and>
   description_points (ratio_const 40) (py_lower ''Cricket Ball'') (py_lower ''Leather Cricket Ball, size 5'') = 62 \<and>
   (62::int) \<noteq> 60 + min 10 (2 * (1 - 1)) \<and>
   \<not> py_in (py_lower ''Cricket Ball'') (py_lower ''Acme Sports'') \<and>
   calculate_relevancy_score (ratio_const 40) acme_lead ''Cricket Ball'' \<noteq> Inr 95"
  by code_simp

text \<open>
  Claim C3, amended. When the lowercased keyword occurs in the non-empty lowercased
  description, with \<open>k\<close> the number of its non-overlapping occurrences there
  (\<open>str.count\<close>, at least 1), the description term is \<open>60 + min(10, 2 k)\<close>. For the
  Acme lead and the keyword \<open>Cricket Ball\<close> the score is
  \<open>min(100, 62 + int(0.3 * partial_ratio("cricket ball", "acme sports")) + 3 + 2)\<close>.
\<close>

theorem description_points_exact:
  "(product_desc_lower \<noteq> [] \<and> py_in keyword_lower product_desc_lower \<longrightarrow>
      1 \<le> py_count product_desc_lower keyword_lower \<and>
      description_points partial_ratio keyword_lower product_desc_lower =
        60 + min 10 (2 * int (py_count product_desc_lower keyword_lower))) \<and>
   calculate_relevancy_score partial_ratio acme_lead ''Cricket Ball'' =
     Inr (min 100 (62 + int_of_tenths (partial_ratio ''cricket ball'' ''acme sports'') 3 + 3 + 2))"
proof -
  have 1: "py_lower ''Cricket Ball'' = ''cricket ball''"
    and 2: "py_lower ''Leather Cricket Ball, size 5'' = ''leather cricket ball, size 5''"
    and 3: "py_lower ''Acme Sports'' = ''acme sports''"
    and 4: "py_in ''cricket ball'' ''leather cricket ball, size 5''"
    and 5: "py_count ''leather cricket ball, size 5'' ''cricket ball'' = 1"
    and 6: "\<not> py_in ''cricket ball'' ''acme sports''"
    by code_simp+
  have "calculate_relevancy_score partial_ratio acme_lead ''Cricket Ball'' =
     Inr (min 100 (62 + int_of_tenths (partial_ratio ''cricket ball'' ''acme sports'') 3 + 3 + 2))"
    by (simp add: calculate_relevancy_score_def acme_lead_def and_then_def dict_item_def Let_def
        1 2 3 4 5 6 description_points_def company_points_def bonus_points_def
        del: py_in.simps)
  moreover have "1 \<le> py_count product_desc_lower keyword_lower"
    if "py_in keyword_lower product_desc_lower"
    using that by (rule py_count_pos)
  ultimately show ?thesis
    by (simp add: description_points_def mult.commute)
qed

theorem description_points_exact_witness:
  "description_points (ratio_const 40) ''ball'' ''ball pen, ball point, football'' = 66 \<and>
   py_count ''ball pen, ball point, football'' ''ball'' = 3 \<and>
   calculate_relevancy_score (ratio_const 40) acme_lead ''Cricket Ball'' = Inr 79"
proof -
  have 1: "''ball pen, ball point, football'' \<noteq> [] \<and> py_in ''ball'' ''ball pen, ball point, football''"
    and 2: "py_count ''ball pen, ball point, football'' ''ball'' = 3"
    by code_simp+
  have 3: "int_of_tenths (ratio_const 40 ''cricket ball'' ''acme sports'') 3 = 12"
    by (simp add: ratio_const_def int_of_tenths_def)
  from description_points_exact[of "''ball pen, ball point, football''" "''ball''" "ratio_const 40"] 1
  have "description_points (ratio_const 40) ''ball'' ''ball pen, ball point, football'' =
          60 + min 10 (2 * int (py_count ''ball pen, ball point, football'' ''ball''))"
    and "calculate_relevancy_score (ratio_const 40) acme_lead ''Cricket Ball'' =
          Inr (min 100 (62 + int_of_tenths (ratio_const 40 ''cricket ball'' ''acme sports'') 3 + 3 + 2))"
    by blast+
  then show ?thesis unfolding 2 3 by simp
qed

text \<open>
  Claim C6 promises at least 60 points whenever the keyword is a substring of the
  description. The empty keyword is a substring of the empty description, and line 641
  skips an empty description: the term is 0.
\<close>

theorem description_points_substring_counterexample:
  "py_in (py_lower []) (py_lower []) \<and>
   description_points (ratio_const 100) (py_lower []) (py_lower []) = 0"
  by code_simp

text \<open>
  Claim C6, amended. When the description is not empty and the lowercased keyword is a
  substring of the lowercased description, the description term is at least 60,
  whatever the fuzzy primitive answers.
\<close>

theorem description_points_substring:
  "product_desc_lower \<noteq> [] \<and> py_in keyword_lower product_desc_lower \<longrightarrow>
     60 \<le> description_points partial_ratio keyword_lower product_desc_lower"
  by (simp add: description_points_def)

theorem description_points_substring_witness:
  "60 \<le> description_points (ratio_const 0) (py_lower ''Cricket Ball'') (py_lower ''Leather Cricket Ball, size 5'')"
proof -
  have "py_lower ''Leather Cricket Ball, size 5'' \<noteq> [] \<and>
        py_in (py_lower ''Cricket Ball'') (py_lower ''Leather Cricket Ball, size 5'')"
    by code_simp
  with description_points_substring[of "py_lower ''Leather Cricket Ball, size 5''" "py_lower ''Cricket Ball''" "ratio_const 0"]
  show ?thesis by blast
qed


subsection \<open>Retry\<close>

lemma getattr_py_def: "getattr (py_def name doc body) ''_name_'' = Inl AttributeError"
  by (simp add: getattr_def py_def_def)

lemma retry_first_failure:
  assumes "0 < max_attempts" "fn_body func s = (Inl e, s')" "is_Exception e"
    "getattr func ''_name_'' = Inl a"
  shows "retry max_attempts delay func s = (Inl a, s', 1)"
  using assms by (simp add: retry_def wrapper_loop.simps)

lemma retry_first_success:
  assumes "0 < max_attempts" "fn_body func s = (Inr v, s')"
  shows "retry max_attempts delay func s = (Inr (Some v), s', 1)"
  using assms by (simp add: retry_def wrapper_loop.simps)

lemma retry_not_Exception:
  assumes "0 < max_attempts" "fn_body func s = (Inl e, s')" "\<not> is_Exception e"
  shows "retry max_attempts delay func s = (Inl e, s', 1)"
  using assms by (simp add: retry_def wrapper_loop.simps)

lemma retry_intended_second_success:
  assumes "getattr func ''_name_'' = Inr name"
    "fn_body func s0 = (Inl e1, s1)" "is_Exception e1" "fn_body func s1 = (Inr v, s2)"
  shows "retry 3 delay func s0 = (Inr (Some v), s2, 2)"
  using assms by (simp add: retry_def wrapper_loop.simps)

lemma retry_intended_exhausted:
  assumes "getattr func ''_name_'' = Inr name"
    "fn_body func s0 = (Inl e1, s1)" "is_Exception e1"
    "fn_body func s1 = (Inl e2, s2)" "is_Exception e2"
    "fn_body func s2 = (Inl e3, s3)" "is_Exception e3"
  shows "retry 3 delay func s0 = (Inl e3, s3, 3)"
  using assms by (simp add: retry_def wrapper_loop.simps)

text \<open>
  Claim C1 says that the wrapper with \<open>max_attempts = 3\<close> calls a failing operation
  up to three times and raises the last failure after the third, and returns the second
  call's result when the first call fails and the second succeeds. What the code does
  with an operation made by \<open>def\<close>: the first failure enters the handler, the message
  of line 50 reads \<open>func._name_\<close> (the attribute is \<open>__name__\<close>), and the
  \<open>AttributeError\<close> leaves the wrapper after one invocation. The lemmas above show the
  loop doing what the claim says once the attribute can be read.
\<close>

theorem retry_flaky_operation:
  "fn_body (py_def ''search_product'' [] flaky_operation) 0 = (Inl TimeoutException, 1) \<and>
   fn_body (py_def ''search_product'' [] flaky_operation) 1 = (Inr 2, 2) \<and>
   retry 3 2 (py_def ''search_product'' [] flaky_operation) 0 = (Inl AttributeError, 1, 1) \<and>
   retry 3 2 (py_def ''search_product'' [] failing_operation) 0 = (Inl AttributeError, 1, 1)"
  by (simp add: retry_def wrapper_loop.simps py_def_def getattr_def flaky_operation_def
      failing_operation_def)


subsection \<open>Export\<close>

lemma py_sorted_reverse_mset: "mset (py_sorted_reverse key xs) = mset xs"
  by (simp add: py_sorted_reverse_def)

lemma py_sorted_reverse_stable:
  "filter (\<lambda>x. key x = k) (py_sorted_reverse key xs) = filter (\<lambda>x. key x = k) xs"
  by (simp add: py_sorted_reverse_def rev_filter[symmetric] sort_key_stable)

lemma py_sorted_reverse_sorted:
  "sorted_wrt (\<lambda>a b. key b \<le> key a) (py_sorted_reverse key xs)"
proof -
  have "sorted (map key (sort_key key (rev xs)))" by simp
  then have "sorted_wrt (\<lambda>a b. key a \<le> key b) (sort_key key (rev xs))"
    by (simp add: sorted_map)
  then show ?thesis
    by (simp add: py_sorted_reverse_def sorted_wrt_rev)
qed

lemma sorted_leads_of_int:
  assumes "\<forall>lead\<in>set leads. has_int_score lead"
  shows "\<exists>sl. sorted_leads_of leads = Inr sl \<and> mset sl = mset leads \<and>
           sorted_wrt (\<lambda>a b. score_of b \<le> score_of a) sl \<and>
           (\<forall>k. filter (\<lambda>l. score_of l = k) sl = filter (\<lambda>l. score_of l = k) leads)"
proof (cases "length leads \<le> 1")
  case True
  then have "sorted_wrt (\<lambda>a b. score_of b \<le> score_of a) leads"
    by (cases leads) auto
  with True show ?thesis by (simp add: sorted_leads_of_def)
next
  case False
  from assms have "list_all is_int_val (map sort_key_of leads)"
    by (simp add: list_all_iff has_int_score_def)
  with False have "sorted_leads_of leads = Inr (py_sorted_reverse score_of leads)"
    by (simp add: sorted_leads_of_def score_of_def[abs_def])
  then show ?thesis
    by (simp add: py_sorted_reverse_mset py_sorted_reverse_sorted py_sorted_reverse_stable)
qed

lemma csv_cell_missing: "dict_get lead field = None \<Longrightarrow> csv_cell lead field = Str []"
  by (simp add: csv_cell_def)

lemma score_of_field:
  "score_of lead = (case map_of lead ''Relevancy Score (%)'' of Some (IntV n) \<Rightarrow> n | _ \<Rightarrow> 0)"
  by (simp add: score_of_def sort_key_of_def dict_get_def split: option.splits pyval.splits)

lemma has_int_score_field:
  "has_int_score lead \<longleftrightarrow>
     map_of lead ''Relevancy Score (%)'' = None \<or>
     (\<exists>n. map_of lead ''Relevancy Score (%)'' = Some (IntV n))"
proof (cases "map_of lead ''Relevancy Score (%)''")
  case None
  then show ?thesis by (simp add: has_int_score_def sort_key_of_def dict_get_def)
next
  case (Some v)
  then show ?thesis by (cases v) (simp_all add: has_int_score_def sort_key_of_def dict_get_def)
qed

lemma csv_row_cells:
  "csv_row lead =
     map (\<lambda>field. case map_of lead field of None \<Rightarrow> Str [] | Some NoneV \<Rightarrow> Str [] | Some v \<Rightarrow> v)
       export_fields"
  by (simp add: csv_row_def csv_cell_def[abs_def] dict_get_def)

text \<open>
  Claim C8. For a non-empty store of leads whose scores are integers (or missing, which
  counts as 0): when the library write goes through, \<open>export_to_csv\<close> returns \<open>True\<close>
  and the file has the nine columns in their fixed order and one row per lead; the rows
  are the leads rearranged by the value under \<open>Relevancy Score (%)\<close>, highest first,
  leads of equal score in the order of the store; each cell is the lead's value under
  the column's key, and the empty string when the lead has no such key (or \<open>None\<close>
  there). When the write raises an \<open>Exception\<close>, the method returns \<open>False\<close>.
\<close>

theorem export_to_csv_sorted:
  assumes "leads \<noteq> []"
    and "\<forall>lead\<in>set leads. map_of lead ''Relevancy Score (%)'' = None \<or>
           (\<exists>n. map_of lead ''Relevancy Score (%)'' = Some (IntV n))"
  shows "\<exists>sorted_leads.
           mset sorted_leads = mset leads \<and>
           sorted_wrt (\<lambda>a b. score_of b \<le> score_of a) sorted_leads \<and>
           (\<forall>k. filter (\<lambda>l. score_of l = k) sorted_leads = filter (\<lambda>l. score_of l = k) leads) \<and>
           export_to_csv to_csv leads filename =
             (case to_csv filename (CsvFile export_fields (map csv_row sorted_leads)) of
                None \<Rightarrow> (Inr True, Some (CsvFile export_fields (map csv_row sorted_leads)))
              | Some e \<Rightarrow> (if is_Exception e then Inr False else Inl e, None)) \<and>
           export_fields =
             [''Company Name'', ''Product Title/Description'', ''Price'', ''Address'',
              ''Phone Number'', ''Email'', ''Product Catalog URL'', ''Company Profile URL'',
              ''Relevancy Score (%)''] \<and>
           (\<forall>lead. csv_row lead =
              map (\<lambda>field. case map_of lead field of
                             None \<Rightarrow> Str [] | Some NoneV \<Rightarrow> Str [] | Some v \<Rightarrow> v)
                export_fields) \<and>
           (\<forall>lead. score_of lead =
              (case map_of lead ''Relevancy Score (%)'' of Some (IntV n) \<Rightarrow> n | _ \<Rightarrow> 0))"
proof -
  from assms(2) have "\<forall>lead\<in>set leads. has_int_score lead"
    by (simp add: has_int_score_field)
  from sorted_leads_of_int[OF this] obtain sl where
    s: "sorted_leads_of leads = Inr sl" "mset sl = mset leads"
       "sorted_wrt (\<lambda>a b. score_of b \<le> score_of a) sl"
       "\<forall>k. filter (\<lambda>l. score_of l = k) sl = filter (\<lambda>l. score_of l = k) leads"
    by blast
  have e: "export_to_csv to_csv leads filename =
             (case to_csv filename (CsvFile export_fields (map csv_row sl)) of
                None \<Rightarrow> (Inr True, Some (CsvFile export_fields (map csv_row sl)))
              | Some e \<Rightarrow> (if is_Exception e then Inr False else Inl e, None))"
    using assms(1) s(1) by (simp add: export_to_csv_def Let_def)
  have f: "export_fields =
             [''Company Name'', ''Product Title/Description'', ''Price'', ''Address'',
              ''Phone Number'', ''Email'', ''Product Catalog URL'', ''Company Profile URL'',
              ''Relevancy Score (%)'']"
    by (simp add: export_fields_def)
  show ?thesis
    by (rule exI[of _ sl]) (intro conjI allI s(2) s(3) s(4) e f csv_row_cells score_of_field)
qed

theorem export_to_csv_sorted_witness:
  "export_to_csv writable [lead_70, lead_95] ''leads.csv'' =
     (Inr True, Some (CsvFile
        [''Company Name'', ''Product Title/Description'', ''Price'', ''Address'', ''Phone Number'',
         ''Email'', ''Product Catalog URL'', ''Company Profile URL'', ''Relevancy Score (%)'']
        [[Str ''Acme Sports'', Str ''Cricket Ball'', Str ''Rs 250'', Str ''Meerut'', Str ''9876543210'',
          Str ''sales@acme.com'', Str [], Str ''https://www.indiamart.com/acme-sports/'', IntV 95],
         [Str ''Bat House'', Str ''Tennis Ball'', Str [], Str ''Pune'', Str [],
          Str [], Str [], Str [], IntV 70]])) \<and>
   export_to_csv read_only [lead_70, lead_95] ''leads.csv'' = (Inr False, None) \<and>
   score_of lead_70 = 70 \<and> score_of lead_95 = 95 \<and>
   (\<exists>sorted_leads. export_to_csv writable [lead_70, lead_95] ''leads.csv'' =
        (Inr True, Some (CsvFile export_fields (map csv_row sorted_leads))) \<and>
      mset sorted_leads = mset [lead_70, lead_95] \<and>
      sorted_wrt (\<lambda>a b. score_of b \<le> score_of a) sorted_leads)"
proof -
  have ne: "[lead_70, lead_95] \<noteq> []" by simp
  have sc: "\<forall>lead\<in>set [lead_70, lead_95]. map_of lead ''Relevancy Score (%)'' = None \<or>
           (\<exists>n. map_of lead ''Relevancy Score (%)'' = Some (IntV n))"
    by (simp add: lead_70_def lead_95_def)
  have v: "export_to_csv writable [lead_70, lead_95] ''leads.csv'' =
     (Inr True, Some (CsvFile
        [''Company Name'', ''Product Title/Description'', ''Price'', ''Address'', ''Phone Number'',
         ''Email'', ''Product Catalog URL'', ''Company Profile URL'', ''Relevancy Score (%)'']
        [[Str ''Acme Sports'', Str ''Cricket Ball'', Str ''Rs 250'', Str ''Meerut'', Str ''9876543210'',
          Str ''sales@acme.com'', Str [], Str ''https://www.indiamart.com/acme-sports/'', IntV 95],
         [Str ''Bat House'', Str ''Tennis Ball'', Str [], Str ''Pune'', Str [],
          Str [], Str [], Str [], IntV 70]]))"
    and w: "export_to_csv read_only [lead_70, lead_95] ''leads.csv'' = (Inr False, None)"
    and k: "score_of lead_70 = 70" "score_of lead_95 = 95"
    by code_simp+
  from export_to_csv_sorted[OF ne sc, of writable "''leads.csv''"] obtain sl where
    "mset sl = mset [lead_70, lead_95]" "sorted_wrt (\<lambda>a b. score_of b \<le> score_of a) sl"
    "export_to_csv writable [lead_70, lead_95] ''leads.csv'' =
       (Inr True, Some (CsvFile export_fields (map csv_row sl)))"
    by (auto simp: writable_def)
  with v w k show ?thesis by blast
qed

subsection \<open>Window handling of the profile enrichment\<close>

lemma fold_max_ge: "(a::nat) \<le> fold max hs a"
  by (induction hs arbitrary: a) (auto intro: order_trans[OF max.cobounded2])

lemma fold_max_mem: "h \<in> set hs \<Longrightarrow> (h::nat) \<le> fold max hs a"
proof (induction hs arbitrary: a)
  case Nil
  then show ?case by simp
next
  case (Cons x xs)
  show ?case
  proof (cases "h = x")
    case True
    have "x \<le> max x a" by simp
    also have "\<dots> \<le> fold max xs (max x a)" by (rule fold_max_ge)
    finally show ?thesis using True by simp
  next
    case False
    with Cons show ?thesis by simp
  qed
qed

lemma fresh_handle_new: "fresh_handle hs \<notin> set hs"
  using fold_max_mem[of "fresh_handle hs" hs 0] by (auto simp: fresh_handle_def)

lemma find_last: "\<forall>x\<in>set xs. \<not> P x \<Longrightarrow> P h \<Longrightarrow> find P (xs @ [h]) = Some h"
  by (induction xs) auto

lemma find_fresh: "h \<notin> set hs \<Longrightarrow> find (\<lambda>x. x \<notin> set hs) (hs @ [h]) = Some h"
  by (rule find_last) auto

lemma next_fault_eq:
  "next_fault d = (fault_at 0 (faults d), d\<lparr>faults := drop 1 (faults d)\<rparr>)"
  by (cases d) (auto simp: next_fault_def fault_at_def split: list.splits)

lemma fault_at_drop: "fault_at i (drop k s) = fault_at (i + k) s"
  by (simp add: fault_at_def add.commute)

lemma next_fault_frame:
  "next_fault d = (f, d') \<Longrightarrow>
   window_handles d' = window_handles d \<and> current_window_handle d' = current_window_handle d"
  by (auto simp: next_fault_eq)

lemma handle_error_frame:
  "handle_error r d = (r2, d2) \<Longrightarrow>
   window_handles d2 = window_handles d \<and> current_window_handle d2 = current_window_handle d"
  by (auto simp: handle_error_def save_screenshot_def next_fault_eq
      split: option.splits if_splits)

lemma cleanup_none_frame:
  assumes "current_window_handle d = Some sh" "cleanup None sh d = (r, d3)"
  shows "window_handles d3 = window_handles d \<and> current_window_handle d3 = Some sh"
  using assms
  by (auto simp: cleanup_def close_profile_window_def switch_to_window_def next_fault_eq
      split: option.splits if_splits)

lemma try_block_unopened:
  assumes "\<not> opens_window page \<or> fault_at 0 (faults d) \<noteq> None \<or> fault_at 1 (faults d) \<noteq> None"
    and "try_block page d seller_info = (r1, d1, seller_info1, new)"
  shows "new = None \<and> window_handles d1 = window_handles d \<and>
         current_window_handle d1 = current_window_handle d"
  using assms
  by (auto simp: try_block_def open_profile_window_def get_window_handles_def
      execute_script_window_open_def wait_new_window_is_opened_def next_fault_eq fault_at_drop
      split: option.splits if_splits)

lemma try_block_opened:
  assumes "opens_window page"
    and "fault_at 0 (faults d) = None" "fault_at 1 (faults d) = None"
    and "fault_at 2 (faults d) = None" "fault_at 3 (faults d) = None"
    and "try_block page d seller_info = (r1, d1, seller_info1, new)"
  shows "new = Some (fresh_handle (window_handles d)) \<and>
         window_handles d1 = window_handles d @ [fresh_handle (window_handles d)] \<and>
         faults d1 = drop 5 (faults d) \<and>
         r1 = (case fault_at 4 (faults d) of
                 Some e \<Rightarrow> Some e
               | None \<Rightarrow> extraction_outcome page seller_info)"
proof (cases "fault_at 4 (faults d)")
  case None
  with assms show ?thesis
    by (auto simp: try_block_def open_profile_window_def get_window_handles_def
      execute_script_window_open_def wait_new_window_is_opened_def switch_to_window_def
      next_fault_eq fault_at_drop find_fresh fresh_handle_new extraction_outcome_def
      eval_nat_numeral
      split: option.splits if_splits sum.splits prod.splits)
next
  case (Some e)
  with assms show ?thesis
    by (auto simp: try_block_def open_profile_window_def get_window_handles_def
      execute_script_window_open_def wait_new_window_is_opened_def switch_to_window_def
      next_fault_eq fault_at_drop find_fresh fresh_handle_new
      eval_nat_numeral
      split: option.splits if_splits prod.splits)
qed

lemma handle_error_faults:
  "handle_error r d = (r2, d2) \<Longrightarrow>
   faults d2 = (if (case r of Some e \<Rightarrow> is_Exception e | None \<Rightarrow> False)
                then drop 1 (faults d) else faults d)"
  by (auto simp: handle_error_def save_screenshot_def next_fault_eq
      split: option.splits if_splits)

lemma cleanup_new_frame:
  assumes "window_handles d = hs @ [new]" "new \<notin> set hs" "sh \<in> set hs"
    and "fault_at 0 (faults d) = None" "fault_at 1 (faults d) = None"
    and "fault_at 2 (faults d) = None" "fault_at 3 (faults d) = None"
    and "cleanup (Some new) sh d = (r, d3)"
  shows "r = None \<and> window_handles d3 = hs \<and> current_window_handle d3 = Some sh"
  using assms
  by (auto simp: cleanup_def close_profile_window_def switch_to_window_def close_window_def
      get_window_handles_def next_fault_eq fault_at_drop eval_nat_numeral
      split: option.splits if_splits)

lemma body_restorable:
  assumes "sh \<in> set (window_handles d)" "current_window_handle d = Some sh"
    and "restorable page seller_info (faults d)"
    and "extract_detailed_info_body page sh (d, seller_info) = (r, (d', seller_info'))"
  shows "window_handles d' = window_handles d \<and> current_window_handle d' = Some sh"
proof (cases "visits_profile seller_info")
  case False
  with assms(2,4) show ?thesis
    by (auto simp: extract_detailed_info_body_def visits_profile_def)
next
  case True
  obtain r1 d1 si1 new where t: "try_block page d seller_info = (r1, d1, si1, new)"
    by (metis prod.collapse)
  obtain r2 d2 where h: "handle_error r1 d1 = (r2, d2)" by (metis prod.collapse)
  obtain r3 d3 where c: "cleanup new sh d2 = (r3, d3)" by (metis prod.collapse)
  from assms(4) True t h c have d': "d' = d3"
    by (auto simp: extract_detailed_info_body_def visits_profile_def split: option.splits)
  note hf = handle_error_frame[OF h]
  show ?thesis
  proof (cases "\<not> opens_window page \<or> fault_at 0 (faults d) \<noteq> None \<or> fault_at 1 (faults d) \<noteq> None")
    case u: True
    from try_block_unopened[OF u t] have n: "new = None"
      and f: "window_handles d1 = window_handles d" "current_window_handle d1 = current_window_handle d"
      by auto
    from hf f assms(2) have "current_window_handle d2 = Some sh" by simp
    from cleanup_none_frame[OF this c[unfolded n]] hf f show ?thesis by (simp add: d')
  next
    case False
    then have o: "opens_window page" and f01: "fault_at 0 (faults d) = None" "fault_at 1 (faults d) = None"
      by auto
    with assms(3) True have cu: "cleanup_undisturbed page seller_info (faults d)"
      by (simp add: restorable_def)
    then have f23: "fault_at 2 (faults d) = None" "fault_at 3 (faults d) = None"
      by (simp_all add: cleanup_undisturbed_def)
    let ?new = "fresh_handle (window_handles d)"
    from try_block_opened[OF o f01 f23 t] have n: "new = Some ?new"
      and w1: "window_handles d1 = window_handles d @ [?new]"
      and s1: "faults d1 = drop 5 (faults d)"
      and r1: "r1 = (case fault_at 4 (faults d) of Some e \<Rightarrow> Some e
                     | None \<Rightarrow> extraction_outcome page seller_info)"
      by auto
    have st: "(case r1 of Some e \<Rightarrow> is_Exception e | None \<Rightarrow> False) =
              screenshot_taken page seller_info (faults d)"
      by (simp add: r1 screenshot_taken_def)
    from handle_error_faults[OF h] have s2:
      "faults d2 = drop (if screenshot_taken page seller_info (faults d) then 6 else 5) (faults d)"
      by (simp add: st s1)
    from cu have k: "fault_at 0 (faults d2) = None" "fault_at 1 (faults d2) = None"
      "fault_at 2 (faults d2) = None" "fault_at 3 (faults d2) = None"
      by (simp_all add: s2 fault_at_drop cleanup_undisturbed_def Let_def add.commute split: if_splits)
    from hf w1 have w2: "window_handles d2 = window_handles d @ [?new]" by simp
    from cleanup_new_frame[OF w2 fresh_handle_new assms(1) k c[unfolded n]]
    show ?thesis by (simp add: d')
  qed
qed

lemma enrichment_single_call:
  assumes "extract_detailed_info_body page sh st = (r, st')"
  shows "fst (snd (extract_detailed_info_from_profile page sh st)) = st'"
proof -
  let ?f = "py_def ''_extract_detailed_info_from_profile''
              ''Visits the company's profile page to extract more detailed information''
              (extract_detailed_info_body page sh)"
  have b: "fn_body ?f st = (r, st')" using assms by (simp add: py_def_def)
  show ?thesis
  proof (cases r)
    case (Inr v)
    have "retry 2 1 ?f st = (Inr (Some v), st', 1)"
      by (rule retry_first_success[OF _ b[unfolded Inr]]) simp
    then show ?thesis by (simp add: extract_detailed_info_from_profile_def)
  next
    case (Inl e)
    show ?thesis
    proof (cases "is_Exception e")
      case True
      have "retry 2 1 ?f st = (Inl AttributeError, st', 1)"
        by (rule retry_first_failure[OF _ b[unfolded Inl] True getattr_py_def]) simp
      then show ?thesis by (simp add: extract_detailed_info_from_profile_def)
    next
      case False
      have "retry 2 1 ?f st = (Inl e, st', 1)"
        by (rule retry_not_Exception[OF _ b[unfolded Inl] False]) simp
      then show ?thesis by (simp add: extract_detailed_info_from_profile_def)
    qed
  qed
qed

lemma try_block_wait_fails:
  assumes "opens_window page"
    and "fault_at 0 (faults d) = None" "fault_at 1 (faults d) = None"
    and "fault_at 2 (faults d) \<noteq> None \<or> fault_at 3 (faults d) \<noteq> None"
    and "try_block page d seller_info = (r1, d1, seller_info1, new)"
  shows "new = None \<and>
         window_handles d1 = window_handles d @ [fresh_handle (window_handles d)] \<and>
         current_window_handle d1 = current_window_handle d"
  using assms
  by (auto simp: try_block_def open_profile_window_def get_window_handles_def
      execute_script_window_open_def wait_new_window_is_opened_def
      next_fault_eq fault_at_drop eval_nat_numeral
      split: option.splits if_splits prod.splits)

lemma cleanup_new_leak:
  assumes "window_handles d = hs @ [new]" "new \<notin> set hs" "sh \<in> set hs"
    and "\<not> (fault_at 0 (faults d) = None \<and> fault_at 1 (faults d) = None \<and>
            fault_at 2 (faults d) = None \<and> fault_at 3 (faults d) = None)"
    and "cleanup (Some new) sh d = (r, d3)"
  shows "window_handles d3 \<noteq> hs \<or> current_window_handle d3 \<noteq> Some sh"
  using assms
  by (auto simp: cleanup_def close_profile_window_def switch_to_window_def close_window_def
      get_window_handles_def next_fault_eq fault_at_drop eval_nat_numeral
      split: option.splits if_splits)

lemma body_not_restorable:
  assumes "sh \<in> set (window_handles d)" "current_window_handle d = Some sh"
    and "\<not> restorable page seller_info (faults d)"
    and "extract_detailed_info_body page sh (d, seller_info) = (r, (d', seller_info'))"
  shows "window_handles d' \<noteq> window_handles d \<or> current_window_handle d' \<noteq> Some sh"
proof -
  from assms(3) have True: "visits_profile seller_info" and o: "opens_window page"
    and f01: "fault_at 0 (faults d) = None" "fault_at 1 (faults d) = None"
    and cu: "\<not> cleanup_undisturbed page seller_info (faults d)"
    by (auto simp: restorable_def)
  obtain r1 d1 si1 new where t: "try_block page d seller_info = (r1, d1, si1, new)"
    by (metis prod.collapse)
  obtain r2 d2 where h: "handle_error r1 d1 = (r2, d2)" by (metis prod.collapse)
  obtain r3 d3 where c: "cleanup new sh d2 = (r3, d3)" by (metis prod.collapse)
  from assms(4) True t h c have d': "d' = d3"
    by (auto simp: extract_detailed_info_body_def visits_profile_def split: option.splits)
  note hf = handle_error_frame[OF h]
  let ?new = "fresh_handle (window_handles d)"
  show ?thesis
  proof (cases "fault_at 2 (faults d) \<noteq> None \<or> fault_at 3 (faults d) \<noteq> None")
    case w: True
    from try_block_wait_fails[OF o f01 w t] have n: "new = None"
      and f: "window_handles d1 = window_handles d @ [?new]"
        "current_window_handle d1 = current_window_handle d"
      by auto
    from hf f assms(2) have "current_window_handle d2 = Some sh" by simp
    from cleanup_none_frame[OF this c[unfolded n]] hf f show ?thesis by (simp add: d')
  next
    case False
    then have f23: "fault_at 2 (faults d) = None" "fault_at 3 (faults d) = None" by auto
    from try_block_opened[OF o f01 f23 t] have n: "new = Some ?new"
      and w1: "window_handles d1 = window_handles d @ [?new]"
      and s1: "faults d1 = drop 5 (faults d)"
      and r1: "r1 = (case fault_at 4 (faults d) of Some e \<Rightarrow> Some e
                     | None \<Rightarrow> extraction_outcome page seller_info)"
      by auto
    have st: "(case r1 of Some e \<Rightarrow> is_Exception e | None \<Rightarrow> False) =
              screenshot_taken page seller_info (faults d)"
      by (simp add: r1 screenshot_taken_def)
    from handle_error_faults[OF h] have s2:
      "faults d2 = drop (if screenshot_taken page seller_info (faults d) then 6 else 5) (faults d)"
      by (simp add: st s1)
    from cu f23 have k: "\<not> (fault_at 0 (faults d2) = None \<and> fault_at 1 (faults d2) = None \<and>
      fault_at 2 (faults d2) = None \<and> fault_at 3 (faults d2) = None)"
      by (simp add: s2 fault_at_drop cleanup_undisturbed_def Let_def add.commute split: if_splits)
    from hf w1 have w2: "window_handles d2 = window_handles d @ [?new]" by simp
    from cleanup_new_leak[OF w2 fresh_handle_new assms(1) k c[unfolded n]]
    show ?thesis by (simp add: d')
  qed
qed

lemma wrapper_loop_invariant:
  "(\<And>s r s'. I s \<Longrightarrow> fn_body func s = (r, s') \<Longrightarrow> I s') \<Longrightarrow> I s \<Longrightarrow>
   I (fst (snd (wrapper_loop max_attempts func attempts s calls)))"
proof (induction max_attempts func attempts s calls rule: wrapper_loop.induct)
  case (1 max_attempts func attempts s calls)
  note step = "1.prems"(1)
  show ?case
  proof (cases "attempts < max_attempts")
    case False
    with "1.prems"(2) show ?thesis by (subst wrapper_loop.simps) simp
  next
    case True
    obtain r s' where b: "fn_body func s = (r, s')" by (cases "fn_body func s")
    from step[OF "1.prems"(2) b] have I': "I s'" .
    show ?thesis
    proof (cases r)
      case (Inr v)
      with True b I' show ?thesis by (subst wrapper_loop.simps) simp
    next
      case (Inl e)
      show ?thesis
      proof (cases "is_Exception e \<and> (\<exists>n. getattr func ''_name_'' = Inr n) \<and> attempts + 1 \<noteq> max_attempts")
        case False
        with True b I' Inl show ?thesis
          by (subst wrapper_loop.simps) (auto split: sum.splits)
      next
        case c: True
        then obtain n where n: "getattr func ''_name_'' = Inr n" by blast
        from c have e: "\<not> \<not> is_Exception e" and m: "attempts + 1 \<noteq> max_attempts" by auto
        from "1.IH"[OF True b[symmetric] Inl e n m step I']
        have "I (fst (snd (wrapper_loop max_attempts func (attempts + 1) s' (Suc calls))))"
          by simp
        with True b Inl c n show ?thesis
          by (subst wrapper_loop.simps) simp
      qed
    qed
  qed
qed

text \<open>
  Claim C2 says that after every invocation of the profile enrichment, returning or
  raising, the open windows and the focused window are what they were before. The
  \<open>finally\<close> clause only tries: when \<open>driver.close()\<close> raises a
  \<open>WebDriverException\<close> (the eighth driver command of a visit), line 615 logs it, the
  method switches back and returns normally, and the profile window stays open.
\<close>

theorem profile_enrichment_counterexample:
  "(case extract_detailed_info_from_profile acme_profile 1
           (results_session (replicate 7 None @ [Some WebDriverException]), acme_listing) of
      (result, (d', seller_info'), calls) \<Rightarrow>
        result = Inr (Some ()) \<and> calls = 1 \<and>
        window_handles d' = [0, 1, 2] \<and> current_window_handle d' = Some 1) \<and>
   window_handles (results_session (replicate 7 None @ [Some WebDriverException])) = [0, 1] \<and>
   current_window_handle (results_session (replicate 7 None @ [Some WebDriverException])) = Some 1"
  by code_simp

text \<open>
  The same visit with one \<open>WebDriverException\<close>, at each place where it is not
  recovered from. Raised by the wait or by the second \<open>window_handles\<close> (commands 3 and
  4), the new window is open but its handle was not found yet, so nothing closes it. Raised
  by the \<open>window_handles\<close> of the \<open>finally\<close> clause (command 6), it leaves the clause at
  once, with the profile window open and focused. Raised by the switch into the profile
  window or by \<open>close\<close> (commands 7 and 8), the window stays open. Raised by the switch
  back (command 9), the profile window is closed and no window is focused.
\<close>

lemma profile_enrichment_leaks:
  "windows_after (extract_detailed_info_from_profile acme_profile 1
      (results_session (fault_script 3), acme_listing)) = ([0, 1, 2], Some 1) \<and>
   windows_after (extract_detailed_info_from_profile acme_profile 1
      (results_session (fault_script 4), acme_listing)) = ([0, 1, 2], Some 1) \<and>
   windows_after (extract_detailed_info_from_profile acme_profile 1
      (results_session (fault_script 6), acme_listing)) = ([0, 1, 2], Some 2) \<and>
   windows_after (extract_detailed_info_from_profile acme_profile 1
      (results_session (fault_script 7), acme_listing)) = ([0, 1, 2], Some 1) \<and>
   windows_after (extract_detailed_info_from_profile acme_profile 1
      (results_session (fault_script 8), acme_listing)) = ([0, 1, 2], Some 1) \<and>
   windows_after (extract_detailed_info_from_profile acme_profile 1
      (results_session (fault_script 9), acme_listing)) = ([0, 1], None)"
  by code_simp

text \<open>
  Claim C2, amended. When the method is given the handle of a window that is open and
  focused, then, whether the invocation returns or raises, the open window handles and
  the focused window after the invocation are those before it exactly in these cases:
  the profile is not visited (no contact field is missing, or there is no profile URL);
  or the profile's window does not open; or the first \<open>window_handles\<close> or the
  \<open>execute_script\<close> fails, so that no window was opened; or, the window being open, the
  wait for it, the second \<open>window_handles\<close> and the four driver commands of the
  \<open>finally\<close> clause (\<open>window_handles\<close>, the switch into the profile window, \<open>close\<close>,
  the switch back) all succeed. In the last case it does not matter what the switch into
  the new window, the reading of the page and the screenshot do: they may raise anything.
  In every other session a window is left open, or the focus is not on the search results.
\<close>

theorem profile_enrichment_restores_windows:
  assumes "search_results_window_handle \<in> set (window_handles d)"
    and "current_window_handle d = Some search_results_window_handle"
    and "extract_detailed_info_from_profile page search_results_window_handle (d, seller_info) =
           (result, (d', seller_info'), calls)"
  shows "(window_handles d' = window_handles d \<and>
          current_window_handle d' = current_window_handle d) =
         restorable page seller_info (faults d)"
proof -
  obtain r st' where b: "extract_detailed_info_body page search_results_window_handle (d, seller_info) = (r, st')"
    by (metis prod.collapse)
  from enrichment_single_call[OF b] assms(3) have "st' = (d', seller_info')" by simp
  with b have e: "extract_detailed_info_body page search_results_window_handle (d, seller_info) =
      (r, (d', seller_info'))" by simp
  show ?thesis
  proof (cases "restorable page seller_info (faults d)")
    case True
    from body_restorable[OF assms(1,2) True e] assms(2) True show ?thesis by simp
  next
    case False
    from body_not_restorable[OF assms(1,2) False e] assms(2) False show ?thesis by auto
  qed
qed

theorem profile_enrichment_restores_windows_witness:
  "windows_of (results_session []) = ([0, 1], Some 1) \<and>
   fst (extract_detailed_info_from_profile acme_profile 1 (results_session [], acme_listing))
     = Inr (Some ()) \<and>
   windows_after (extract_detailed_info_from_profile acme_profile 1
      (results_session [], acme_listing)) = ([0, 1], Some 1) \<and>
   fst (extract_detailed_info_from_profile broken_profile 1 (results_session [], acme_listing))
     = Inl AttributeError \<and>
   windows_after (extract_detailed_info_from_profile broken_profile 1
      (results_session [], acme_listing)) = ([0, 1], Some 1) \<and>
   windows_after (extract_detailed_info_from_profile acme_profile 1
      (results_session (fault_script 1), acme_listing)) = ([0, 1], Some 1) \<and>
   windows_after (extract_detailed_info_from_profile acme_profile 1
      (results_session (fault_script 2), acme_listing)) = ([0, 1], Some 1) \<and>
   windows_after (extract_detailed_info_from_profile acme_profile 1
      (results_session (fault_script 5), acme_listing)) = ([0, 1], Some 1) \<and>
   windows_after (extract_detailed_info_from_profile broken_profile 1
      (results_session (fault_script 6), acme_listing)) = ([0, 1], Some 1) \<and>
   windows_after (extract_detailed_info_from_profile (acme_profile\<lparr>opens_window := False\<rparr>) 1
      (results_session (fault_script 3), acme_listing)) = ([0, 1], Some 1) \<and>
   windows_after (extract_detailed_info_from_profile acme_profile 1
      (results_session (fault_script 8), acme_listing)) \<noteq> ([0, 1], Some 1)"
proof -
  have h: "1 \<in> set (window_handles (results_session script))"
    "current_window_handle (results_session script) = Some 1"
    "window_handles (results_session script) = [0, 1]"
    "faults (results_session script) = script" for script
    by (simp_all add: results_session_def)
  have gen: "(windows_after (extract_detailed_info_from_profile page 1
      (results_session script, acme_listing)) = ([0, 1], Some 1)) =
      restorable page acme_listing script" for page script
  proof -
    obtain a d' s' c where e: "extract_detailed_info_from_profile page 1
        (results_session script, acme_listing) = (a, (d', s'), c)"
      by (metis prod.collapse)
    from profile_enrichment_restores_windows[OF h(1,2) e]
    have "(window_handles d' = [0, 1] \<and> current_window_handle d' = Some 1) =
          restorable page acme_listing script"
      by (simp only: h(2,3,4))
    then show ?thesis
      unfolding e windows_after_def windows_of_def by simp
  qed
  have r: "restorable acme_profile acme_listing []"
    "restorable broken_profile acme_listing []"
    "restorable acme_profile acme_listing (fault_script 1)"
    "restorable acme_profile acme_listing (fault_script 2)"
    "restorable acme_profile acme_listing (fault_script 5)"
    "restorable broken_profile acme_listing (fault_script 6)"
    "restorable (acme_profile\<lparr>opens_window := False\<rparr>) acme_listing (fault_script 3)"
    "\<not> restorable acme_profile acme_listing (fault_script 8)"
    by code_simp+
  have v: "windows_of (results_session []) = ([0, 1], Some 1)"
    "fst (extract_detailed_info_from_profile acme_profile 1 (results_session [], acme_listing))
       = Inr (Some ())"
    "fst (extract_detailed_info_from_profile broken_profile 1 (results_session [], acme_listing))
       = Inl AttributeError"
    by code_simp+
  from r v show ?thesis by (simp only: gen simp_thms)
qed

subsection \<open>The lead store\<close>

lemma dict_get_set: "dict_get (dict_set d k v) k' = (if k' = k then Some v else dict_get d k')"
  by (induction d) (auto simp: dict_get_def)

lemma names_stripped_set_other:
  "names_stripped si \<Longrightarrow> k \<noteq> ''Company Name'' \<Longrightarrow> k \<noteq> ''Product Title/Description'' \<Longrightarrow>
   names_stripped (dict_set si k v)"
  by (simp add: names_stripped_def dict_get_set)

lemma names_stripped_set_name:
  "names_stripped si \<Longrightarrow> names_stripped (dict_set si ''Company Name'' (Str (py_strip text)))"
  by (simp add: names_stripped_def dict_get_set stripped_strip)

lemma names_stripped_set_title:
  "names_stripped si \<Longrightarrow>
   names_stripped (dict_set si ''Product Title/Description'' (Str (py_strip text)))"
  by (simp add: names_stripped_def dict_get_set stripped_strip)

lemmas names_stripped_set = names_stripped_set_other names_stripped_set_name names_stripped_set_title

lemma names_stripped_new: "names_stripped new_seller_info"
  by (simp add: names_stripped_def new_seller_info_def dict_get_def stripped_def)

lemma keeps_names_then_step:
  assumes "keeps_names f" "keeps_names g"
  shows "keeps_names (then_step f g)"
  unfolding keeps_names_def
proof (intro allI impI)
  fix si r si'
  assume p: "names_stripped si" and e: "then_step f g si = (r, si')"
  obtain r1 si1 where f: "f si = (r1, si1)" by (cases "f si")
  with assms(1) p have p1: "names_stripped si1" by (auto simp: keeps_names_def)
  show "names_stripped si'"
  proof (cases r1)
    case None
    with f e have "g si1 = (r, si')" by (simp add: then_step_def)
    with assms(2) p1 show ?thesis by (auto simp: keeps_names_def)
  next
    case (Some x)
    with f e p1 show ?thesis by (simp add: then_step_def)
  qed
qed

lemma card_product_preserves: "keeps_names (card_product c)"
  unfolding keeps_names_def
  by (auto simp: card_product_def missing_element_def Let_def names_stripped_set
      split: sum.splits if_splits)

lemma card_price_preserves: "keeps_names (card_price c)"
  unfolding keeps_names_def
  by (auto simp: card_price_def missing_element_def names_stripped_set split: sum.splits if_splits)

lemma card_company_preserves: "keeps_names (card_company c)"
  unfolding keeps_names_def
  by (auto simp: card_company_def missing_element_def Let_def names_stripped_set
      split: sum.splits if_splits)

lemma card_short_location_preserves: "keeps_names (card_short_location c)"
  unfolding keeps_names_def
  by (auto simp: card_short_location_def missing_element_def names_stripped_set
      split: sum.splits if_splits)

lemma card_full_address_preserves: "keeps_names (card_full_address c)"
  unfolding keeps_names_def
  by (auto simp: card_full_address_def missing_element_def names_stripped_set
      split: sum.splits if_splits)

lemma card_phone_preserves: "keeps_names (card_phone c)"
  unfolding keeps_names_def
  by (auto simp: card_phone_def missing_element_def names_stripped_set
      split: sum.splits if_splits prod.splits)

lemma listing_names_stripped:
  assumes "extract_seller_info_from_listing c = Inr si"
  shows "names_stripped si"
proof -
  have k: "keeps_names (then_step (card_product c)
           (then_step (card_price c)
           (then_step (card_company c)
           (then_step (card_short_location c)
           (then_step (card_full_address c)
                      (card_phone c))))))"
    by (intro keeps_names_then_step card_product_preserves card_price_preserves
        card_company_preserves card_short_location_preserves card_full_address_preserves
        card_phone_preserves)
  obtain r si' where e: "(then_step (card_product c)
           (then_step (card_price c)
           (then_step (card_company c)
           (then_step (card_short_location c)
           (then_step (card_full_address c)
                      (card_phone c)))))) new_seller_info = (r, si')"
    by (metis prod.collapse)
  with k names_stripped_new have "names_stripped si'" by (auto simp: keeps_names_def)
  with assms e show ?thesis
    by (auto simp: extract_seller_info_from_listing_def split: option.splits if_splits)
qed

lemma backfill_title_preserves: "keeps_names (backfill_title p)"
  unfolding keeps_names_def
  by (auto simp: backfill_title_def names_stripped_set split: sum.splits if_splits)

lemma backfill_price_preserves: "keeps_names (backfill_price p)"
  unfolding keeps_names_def
  by (auto simp: backfill_price_def names_stripped_set split: sum.splits if_splits)

lemma backfill_company_preserves: "keeps_names (backfill_company p)"
  unfolding keeps_names_def
  by (auto simp: backfill_company_def names_stripped_set split: sum.splits if_splits)

lemma overwrite_address_preserves: "keeps_names (overwrite_address p)"
  unfolding keeps_names_def
  by (auto simp: overwrite_address_def names_stripped_set split: sum.splits if_splits)

lemma backfill_phone_preserves: "keeps_names (backfill_phone p)"
  unfolding keeps_names_def
  by (auto simp: backfill_phone_def names_stripped_set split: sum.splits if_splits)

lemma backfill_email_preserves: "keeps_names (backfill_email p)"
  unfolding keeps_names_def
  by (auto simp: backfill_email_def names_stripped_set split: sum.splits if_splits option.splits)

lemma backfill_catalog_preserves: "keeps_names (backfill_catalog p)"
  unfolding keeps_names_def
  by (auto simp: backfill_catalog_def names_stripped_set split: sum.splits if_splits option.splits)

lemma extract_fields_preserves:
  assumes "names_stripped si" "extract_fields p si = (r, si')"
  shows "names_stripped si'"
proof -
  have "keeps_names (extract_fields p)"
    unfolding extract_fields_def
    by (intro keeps_names_then_step backfill_title_preserves backfill_price_preserves
      backfill_company_preserves overwrite_address_preserves backfill_phone_preserves
      backfill_email_preserves backfill_catalog_preserves)
  with assms show ?thesis by (auto simp: keeps_names_def)
qed

lemma try_block_preserves:
  assumes "names_stripped si" "try_block p d si = (r, d', si', new)"
  shows "names_stripped si'"
  using assms extract_fields_preserves[of si p]
  by (auto simp: try_block_def split: prod.splits sum.splits option.splits)

lemma body_preserves:
  assumes "names_stripped (snd s)" "extract_detailed_info_body p sh s = (r, s')"
  shows "names_stripped (snd s')"
proof (cases s)
  case (Pair d si)
  obtain r1 d1 si1 new where t: "try_block p d si = (r1, d1, si1, new)"
    by (metis prod.collapse)
  from try_block_preserves[OF _ t] assms(1) Pair have "names_stripped si1" by simp
  with assms Pair t show ?thesis
    by (auto simp: extract_detailed_info_body_def split: prod.splits option.splits if_splits)
qed

lemma enrichment_preserves:
  assumes "names_stripped si"
    "extract_detailed_info_from_profile p sh (d, si) = (r, (d', si'), calls)"
  shows "names_stripped si'"
proof -
  let ?f = "py_def ''_extract_detailed_info_from_profile''
              ''Visits the company's profile page to extract more detailed information''
              (extract_detailed_info_body p sh)"
  have "names_stripped (snd (fst (snd (wrapper_loop 2 ?f 0 (d, si) 0))))"
  proof (rule wrapper_loop_invariant[where I = "\<lambda>s. names_stripped (snd s)"])
    fix s r s'
    assume "names_stripped (snd s)" "fn_body ?f s = (r, s')"
    then show "names_stripped (snd s')"
      using body_preserves[of s p sh r s'] by (simp add: py_def_def)
  next
    show "names_stripped (snd (d, si))" using assms(1) by simp
  qed
  with assms(2) show ?thesis
    by (simp add: extract_detailed_info_from_profile_def retry_def)
qed

lemma collapse_nonempty: "stripped s \<Longrightarrow> s \<noteq> [] \<Longrightarrow> collapse_spaces s \<noteq> []"
proof (induction s rule: collapse_spaces.induct)
  case (1 s)
  show ?case
  proof (cases "py_in ''  '' s")
    case False
    with "1.prems" show ?thesis by (simp add: collapse_fix)
  next
    case True
    from "1.prems" have "last s \<noteq> CHR '' ''" using space_isspace by (auto simp: stripped_def)
    from replace2_ends[OF "1.prems"(2) this] have "py_replace ''  '' '' '' s \<noteq> []"
      by (simp add: py_replace_def)
    moreover have "stripped (py_replace ''  '' '' '' s)" using "1.prems"(1) by (rule replace2_stripped)
    ultimately have "collapse_spaces (py_replace ''  '' '' '' s) \<noteq> []"
      using "1.IH"[OF True] by simp
    with True show ?thesis by (subst collapse_spaces.simps) simp
  qed
qed

lemma sanitize_str_nonempty:
  assumes "stripped s" "s \<noteq> []"
  shows "sanitize_str s \<noteq> []"
proof -
  define c where "c = map (\<lambda>x. if x = CHR 0x09 then CHR '' '' else x)
                        (map (\<lambda>x. if x = CHR 0x0A then CHR '' '' else x) s)"
  have e: "sanitize_str s = collapse_spaces c"
    using assms(1) by (simp add: sanitize_str_def py_replace_def replace_char strip_stripped c_def)
  have "stripped c" unfolding c_def
    by (intro map_space_stripped assms(1) space_isspace)
  moreover have "c \<noteq> []" using assms(2) by (simp add: c_def)
  ultimately show ?thesis unfolding e by (rule collapse_nonempty)
qed

lemma dict_get_sanitize:
  "dict_get (sanitize_data d) k = map_option sanitize_value (dict_get d k)"
  by (induction d) (auto simp: dict_get_def sanitize_data_def)

lemma retained_sanitize_name:
  assumes "dict_get si ''Company Name'' = Some (Str n)" "stripped n" "n \<noteq> []"
  shows "retained (sanitize_data si)"
  using assms sanitize_str_nonempty[of n]
  by (simp add: retained_def nonempty_field_def dict_get_sanitize)

lemma retained_sanitize_title:
  assumes "dict_get si ''Product Title/Description'' = Some (Str t)" "stripped t" "t \<noteq> []"
  shows "retained (sanitize_data si)"
  using assms sanitize_str_nonempty[of t]
  by (simp add: retained_def nonempty_field_def dict_get_sanitize)

lemma score_and_store_retained:
  assumes "names_stripped si" "\<forall>l\<in>set leads. retained l"
    "score_and_store pr kw si leads = Inr leads'"
  shows "\<forall>l\<in>set leads'. retained l"
proof -
  from assms(3) obtain score where
    s: "calculate_relevancy_score pr si kw = Inr score"
    by (auto simp: score_and_store_def and_then_def split: sum.splits)
  let ?si = "dict_set si ''Relevancy Score (%)'' (IntV score)"
  have "names_stripped ?si" using assms(1) by (simp add: names_stripped_set_other)
  then obtain n t where
    n: "dict_get ?si ''Company Name'' = Some (Str n)" "stripped n" and
    t: "dict_get ?si ''Product Title/Description'' = Some (Str t)" "stripped t"
    by (auto simp: names_stripped_def)
  from n(1) t(1) have i: "dict_item ?si ''Company Name'' = Inr (Str n)"
    "dict_item ?si ''Product Title/Description'' = Inr (Str t)"
    by (simp_all add: dict_item_def dict_get_def)
  from assms(3) s i have
    "leads' = (if n \<noteq> [] then leads @ [sanitize_data ?si]
               else if t \<noteq> [] then leads @ [sanitize_data ?si] else leads)"
    by (simp add: score_and_store_def and_then_def Let_def split: if_splits)
  with assms(2) retained_sanitize_name[OF n] retained_sanitize_title[OF t]
  show ?thesis by (auto split: if_splits)
qed

lemma process_lead_retained:
  assumes "names_stripped si" "\<forall>l\<in>set leads. retained l"
    "process_lead pr kw sh (si, p) (d, leads) = (r, (d', leads'))"
  shows "\<forall>l\<in>set leads'. retained l"
proof (cases "needs_enrichment si")
  case False
  with assms(3) assms(2) show ?thesis
    using score_and_store_retained[OF assms(1,2), of pr kw]
    by (auto simp: process_lead_def split: sum.splits)
next
  case True
  obtain r1 d1 si1 c1 where e: "extract_detailed_info_from_profile p sh (d, si) = (r1, (d1, si1), c1)"
    by (metis prod.collapse)
  from enrichment_preserves[OF assms(1) e] have "names_stripped si1" .
  from score_and_store_retained[OF this assms(2), of pr kw] assms(3) True e assms(2)
  show ?thesis
    by (cases r1) (auto simp: process_lead_def split: sum.splits)
qed

lemma process_leads_retained:
  assumes "\<forall>x\<in>set listings. names_stripped (fst x)" "\<forall>l\<in>set (snd st). retained l"
    "process_leads pr kw min_leads sh listings st = (r, st')"
  shows "\<forall>l\<in>set (snd st'). retained l"
  using assms
proof (induction listings arbitrary: st)
  case Nil
  then show ?case by simp
next
  case (Cons x xs)
  show ?case
  proof (cases "min_leads \<le> int (length (snd st))")
    case True
    with Cons.prems show ?thesis by simp
  next
    case False
    obtain r1 d1 l1 where p: "process_lead pr kw sh x st = (r1, (d1, l1))"
      by (metis prod.collapse)
    from Cons.prems(1) have nx: "names_stripped (fst x)" by simp
    have l1: "\<forall>l\<in>set l1. retained l"
      using process_lead_retained[OF nx, of "snd st" pr kw sh "snd x" "fst st" r1 d1 l1]
        Cons.prems(2) p by simp
    show ?thesis
    proof (cases r1)
      case (Some e)
      with False p Cons.prems(3) l1 show ?thesis by auto
    next
      case None
      with False p Cons.prems(3) have "process_leads pr kw min_leads sh xs (d1, l1) = (r, st')"
        by simp
      from Cons.IH[OF _ _ this] Cons.prems(1) l1 show ?thesis by simp
    qed
  qed
qed

lemma extract_listings_names:
  "extract_listings cs = Inr ls \<Longrightarrow> \<forall>x\<in>set ls. names_stripped (fst x)"
proof (induction cs arbitrary: ls)
  case Nil
  then show ?case by simp
next
  case (Cons c cs)
  obtain card page where c: "c = (card, page)" by (cases c)
  from Cons.prems c obtain si rest where
    "extract_seller_info_from_listing card = Inr si" "extract_listings cs = Inr rest"
    "ls = (si, page) # rest"
    by (auto simp: and_then_def split: sum.splits)
  with Cons.IH[of rest] listing_names_stripped[of card si] show ?case by simp
qed

lemma page_error_leads: "page_error e st = (r, st') \<Longrightarrow> snd st' = snd st"
  by (auto simp: page_error_def split: prod.splits if_splits sum.splits)

lemma scrape_page_retained:
  assumes "\<forall>l\<in>set (snd st). retained l"
    "scrape_page pr kw min_leads sh page st = (go_on, r, st')"
  shows "\<forall>l\<in>set (snd st'). retained l"
proof -
  obtain d leads where st: "st = (d, leads)" by (cases st)
  obtain d' leads' where st': "st' = (d', leads')" by (cases st')
  have old: "\<forall>x\<in>set leads. retained x" using assms(1) st by simp
  have pe: "l' = l" if "page_error e (d1, l) = (r, d', l')" for e d1 l l'
    using page_error_leads[OF that] by simp
  have pl: "retained x"
    if "process_leads pr kw min_leads sh ls (d2, leads) = (r3, d3, l3)"
      "extract_listings cs = Inr ls" "x \<in> set l3"
    for cs ls d2 r3 d3 l3 x
    using process_leads_retained[OF extract_listings_names[OF that(2)] _ that(1)] assms(1) st that(3)
    by simp
  from assms(2) have "retained x" if "x \<in> set leads'" for x
    using that old unfolding scrape_page_def st st'
    by (auto split: prod.splits sum.splits if_splits option.splits
        dest!: pe dest: pl)
  then show ?thesis by (simp add: st')
qed

lemma scrape_pages_retained:
  assumes "\<forall>l\<in>set (snd st). retained l"
    "scrape_pages pr kw min_leads sh pages st = (r, st')"
  shows "\<forall>l\<in>set (snd st'). retained l"
  using assms
proof (induction pages arbitrary: st)
  case Nil
  obtain d leads where st: "st = (d, leads)" by (cases st)
  from Nil.prems(2) have "snd st' = snd st"
    unfolding st
    by (auto split: if_splits prod.splits sum.splits dest!: page_error_leads)
  with Nil.prems(1) show ?case by simp
next
  case (Cons page pages)
  show ?case
  proof (cases "int (length (snd st)) < min_leads")
    case False
    with Cons.prems show ?thesis by simp
  next
    case True
    obtain go_on r1 st1 where p: "scrape_page pr kw min_leads sh page st = (go_on, r1, st1)"
      by (metis prod.collapse)
    from scrape_page_retained[OF Cons.prems(1) p] have s1: "\<forall>l\<in>set (snd st1). retained l" .
    show ?thesis
    proof (cases "go_on \<and> r1 = None")
      case c: True
      with True p Cons.prems(2) have "scrape_pages pr kw min_leads sh pages st1 = (r, st')"
        by simp
      from Cons.IH[OF s1 this] show ?thesis .
    next
      case False
      with True p Cons.prems(2) have "st' = st1"
        by (auto split: bool.splits option.splits)
      with s1 show ?thesis by simp
    qed
  qed
qed

text \<open>
  Claim C9. Every record in the lead store at the end of \<open>scrape_search_results\<close>
  (records are only ever appended) has a non-empty company name or a non-empty product
  title: the two fields are written by \<open>text.strip()\<close> only, so a value that passes the
  test of line 752 is still non-empty after \<open>sanitize_data\<close>.
\<close>

theorem stored_leads_have_a_name:
  assumes "scrape_search_results partial_ratio keyword min_leads pages d = (r, d', leads)"
    and "lead \<in> set leads"
  shows "nonempty_field lead ''Company Name'' \<or> nonempty_field lead ''Product Title/Description''"
proof -
  have "\<forall>l\<in>set leads. retained l"
  proof (cases "get_current_window_handle d")
    case (Pair a d1)
    show ?thesis
    proof (cases a)
      case (Inl e)
      with Pair assms(1) show ?thesis by (simp add: scrape_search_results_def)
    next
      case (Inr sh)
      obtain r2 st2 where s: "scrape_pages partial_ratio keyword min_leads sh pages (d1, []) = (r2, st2)"
        by (metis prod.collapse)
      from scrape_pages_retained[OF _ s] have "\<forall>l\<in>set (snd st2). retained l" by simp
      with Pair Inr s assms(1) show ?thesis
        by (auto simp: scrape_search_results_def split: prod.splits)
    qed
  qed
  with assms(2) show ?thesis by (simp add: retained_def)
qed

theorem stored_leads_have_a_name_witness:
  "scrape_search_results (ratio_const 40) ''Cricket Ball'' 50 acme_results (results_session []) =
     (None, results_session [], [acme_stored]) \<and>
   acme_stored \<in> set [acme_stored] \<and>
   (nonempty_field acme_stored ''Company Name'' \<or>
    nonempty_field acme_stored ''Product Title/Description'')"
proof -
  have e: "scrape_search_results (ratio_const 40) ''Cricket Ball'' 50 acme_results (results_session []) =
     (None, results_session [], [acme_stored])"
    by code_simp
  have m: "acme_stored \<in> set [acme_stored]" by simp
  from stored_leads_have_a_name[OF e m] e m show ?thesis by simp
qed

end
